theory Spec2Isabelle
  imports Main
begin

section \<open>Node's \<open>path\<close> module (POSIX flavour) and string helpers\<close>

text \<open>
  \<open>Engine.js\<close> computes every path with Node's \<open>path.join\<close>, \<open>path.dirname\<close> and
  \<open>path.relative\<close> and tests strings with \<open>startsWith\<close>. The functions below follow
  the POSIX implementation of Node's \<open>path\<close> module; the normalisation works on the
  list of \<open>/\<close>-separated segments, which is what Node's character loop computes.
\<close>

definition startsWith :: "string \<Rightarrow> string \<Rightarrow> bool" where
  "startsWith s p = (take (length p) s = p)"

fun splitSlash :: "string \<Rightarrow> string list" where
  "splitSlash [] = [[]]"
| "splitSlash (c # cs) =
     (if c = CHR ''/'' then [] # splitSlash cs
      else (case splitSlash cs of [] \<Rightarrow> [[c]] | seg # segs \<Rightarrow> (c # seg) # segs))"

fun joinSlash :: "string list \<Rightarrow> string" where
  "joinSlash [] = []"
| "joinSlash [s] = s"
| "joinSlash (s # t # ss) = s @ ''/'' @ joinSlash (t # ss)"

text \<open>
  \<open>normalizeString(path, allowAboveRoot)\<close>: empty and \<open>.\<close> segments are dropped, a
  \<open>..\<close> removes the segment before it unless there is none or it is itself \<open>..\<close>; then it
  is kept when \<open>allowAboveRoot\<close> and dropped otherwise.
\<close>

fun normSegments :: "bool \<Rightarrow> string list \<Rightarrow> string list \<Rightarrow> string list" where
  "normSegments allowAboveRoot [] res = res"
| "normSegments allowAboveRoot (s # ss) res =
     (if s = [] \<or> s = ''.'' then normSegments allowAboveRoot ss res
      else if s = ''..'' then
        (if res \<noteq> [] \<and> last res \<noteq> ''..'' then normSegments allowAboveRoot ss (butlast res)
         else if allowAboveRoot then normSegments allowAboveRoot ss (res @ [''..''])
         else normSegments allowAboveRoot ss res)
      else normSegments allowAboveRoot ss (res @ [s]))"

definition normalizeString :: "string \<Rightarrow> bool \<Rightarrow> string" where
  "normalizeString path allowAboveRoot = joinSlash (normSegments allowAboveRoot (splitSlash path) [])"

definition isAbsolute :: "string \<Rightarrow> bool" where
  "isAbsolute path = (case path of [] \<Rightarrow> False | c # _ \<Rightarrow> c = CHR ''/'')"

definition normalizePath :: "string \<Rightarrow> string" where
  "normalizePath path =
     (if path = [] then ''.''
      else
        let trailingSeparator = (last path = CHR ''/'');
            p = normalizeString path (\<not> isAbsolute path)
        in if p = [] then (if isAbsolute path then ''/'' else if trailingSeparator then ''./'' else ''.'')
           else (let p' = (if trailingSeparator then p @ ''/'' else p)
                 in if isAbsolute path then ''/'' @ p' else p'))"

text \<open>\<open>path.join(...args)\<close>: the non-empty arguments joined by \<open>/\<close>, then normalised.\<close>

definition join :: "string list \<Rightarrow> string" where
  "join args =
     (case filter (\<lambda>a. a \<noteq> []) args of
        [] \<Rightarrow> ''.''
      | joined \<Rightarrow> normalizePath (joinSlash joined))"

text \<open>
  \<open>path.dirname(path)\<close>: the scan runs from the last character down to index 1 and stops
  at the first \<open>/\<close> that has a non-separator character to its right.
\<close>

fun dirnameScan :: "string \<Rightarrow> nat \<Rightarrow> bool \<Rightarrow> nat option" where
  "dirnameScan path 0 matchedSlash = None"
| "dirnameScan path (Suc i) matchedSlash =
     (if path ! Suc i = CHR ''/'' then
        (if \<not> matchedSlash then Some (Suc i) else dirnameScan path i matchedSlash)
      else dirnameScan path i False)"

definition dirname :: "string \<Rightarrow> string" where
  "dirname path =
     (if path = [] then ''.''
      else (case dirnameScan path (length path - 1) True of
              None \<Rightarrow> (if isAbsolute path then ''/'' else ''.'')
            | Some e \<Rightarrow> (if isAbsolute path \<and> e = 1 then ''//'' else take e path)))"

text \<open>
  \<open>path.resolve(path)\<close> with one argument; \<open>cwd\<close> stands for \<open>process.cwd()\<close>, which is
  an absolute path.
\<close>

definition resolve :: "string \<Rightarrow> string \<Rightarrow> string" where
  "resolve cwd path =
     (if path = [] then ''/'' @ normalizeString (cwd @ ''/'') False
      else if isAbsolute path then ''/'' @ normalizeString (path @ ''/'') False
      else ''/'' @ normalizeString (cwd @ ''/'' @ path @ ''/'') False)"

fun commonPrefixLength :: "string list \<Rightarrow> string list \<Rightarrow> nat" where
  "commonPrefixLength (x # xs) (y # ys) = (if x = y then Suc (commonPrefixLength xs ys) else 0)"
| "commonPrefixLength xs ys = 0"

definition segments :: "string \<Rightarrow> string list" where
  "segments path = filter (\<lambda>s. s \<noteq> []) (splitSlash path)"

text \<open>
  \<open>path.relative(from, to)\<close>: both paths are resolved, their common leading segments are
  dropped, and one \<open>..\<close> is emitted for each segment left of \<open>from\<close>.
\<close>

definition relative :: "string \<Rightarrow> string \<Rightarrow> string \<Rightarrow> string" where
  "relative cwd from to =
     (if from = to then []
      else
        let f = resolve cwd from; t = resolve cwd to
        in if f = t then []
           else
             let fs = segments f; ts = segments t; n = commonPrefixLength fs ts
             in joinSlash (replicate (length fs - n) ''..'' @ drop n ts))"

text \<open>The template literal \<open>${count}\<close> prints a number in decimal.\<close>

definition digitChar :: "nat \<Rightarrow> char" where
  "digitChar d = char_of (48 + d)"

function showNat :: "nat \<Rightarrow> string" where
  "showNat n = (if n < 10 then [digitChar n] else showNat (n div 10) @ [digitChar (n mod 10)])"
  by pat_completeness auto
termination
  by (relation "measure (\<lambda>n. n)") auto


function stripParents :: "string \<Rightarrow> nat \<Rightarrow> nat \<times> string" where
  "stripParents relPath count =
     (if startsWith relPath ''../'' then stripParents (drop 3 relPath) (count + 1)
      else (count, relPath))"
  by pat_completeness auto
termination
proof (relation "measure (\<lambda>(relPath, count). length relPath)")
  show "wf (measure (\<lambda>(relPath :: string, count :: nat). length relPath))"
    by simp
next
  fix relPath :: string and count :: nat
  assume "startsWith relPath ''../''"
  then have "relPath \<noteq> []"
    by (auto simp: startsWith_def)
  then show "((drop 3 relPath, count + 1), (relPath, count))
             \<in> measure (\<lambda>(relPath, count). length relPath)"
    by simp
qed

section \<open>Data model\<close>

text \<open>
  The engine's collaborators live in other modules (\<open>renderViaWorker.js\<close>, \<open>Watcher.js\<close>,
  \<open>web-menu/PageTree.js\<close>, \<open>urlPathConverter.js\<close>, \<open>updateRocketHeader.js\<close>,
  \<open>gatherFiles.js\<close>). Every call into them, and every file-system call, is recorded as an
  event, in program order.
\<close>

datatype error = RenderError string

datatype event =
    UpdateRocketHeader string
  | RenderFile string
  | PageTreeAdd string
  | PageTreeSave
  | Rm string
  | RmRecursive string
  | Mkdir string
  | Copy string string
  | LogRendering string
  | ConsoleLog string
  | Stop

text \<open>A watcher page; \<open>webSockets\<close> is the set of open tabs, undefined or a set of sockets.\<close>

record page =
  webSockets :: "nat list option"

text \<open>A plugin object: \<open>plugin.constructor.name\<close> and \<open>plugin.constructor.publicFolder\<close>.\<close>

record plugin =
  constructorName :: string
  publicFolder :: "string option"

record pageTree =
  nodes :: "string list"
  persisted :: "string list"
  needsAnotherRenderingPass :: bool
  pageTreeChangedOnSave :: bool

text \<open>
  The mutable world: which paths exist on disk (\<open>existsSync\<close>), the page tree, the
  watcher's \<open>pages\<close> map in insertion order (\<open>None\<close> while \<open>this.watcher\<close> is undefined)
  and the events so far.
\<close>

record world =
  files :: "string \<Rightarrow> bool"
  pageTree :: pageTree
  watcherPages :: "(string \<times> page) list option"
  events :: "event list"

text \<open>
  The engine: its resolved directories, \<open>options.plugins\<close> as \<open>applyPlugins\<close> leaves
  them, and the collaborators whose code is elsewhere, taken as parameters:
  whether \<open>renderViaWorker\<close> rejects for a file in a given world, \<open>urlToSourceFilePath\<close>,
  \<open>sourceRelativeFilePathToOutputRelativeFilePath\<close>, and the page tree's test for a
  structural change between the persisted tree and the one being saved.
\<close>

record engine =
  cwd :: string
  docsDir :: string
  outputDir :: string
  plugins :: "plugin list option"
  renderRejects :: "string \<Rightarrow> world \<Rightarrow> bool"
  urlToSourceFilePath :: "string \<Rightarrow> string \<Rightarrow> string option"
  sourceRelativeFilePathToOutputRelativeFilePath :: "string \<Rightarrow> string"
  structureChanged :: "string list \<Rightarrow> string list \<Rightarrow> bool"

definition emit :: "event \<Rightarrow> world \<Rightarrow> world" where
  "emit e w = w\<lparr>events := events w @ [e]\<rparr>"

text \<open>The events that happened between an earlier world and a later one.\<close>

definition emitted :: "world \<Rightarrow> world \<Rightarrow> event list" where
  "emitted w w' = drop (length (events w)) (events w')"

definition trackedPages :: "world \<Rightarrow> (string \<times> page) list" where
  "trackedPages w = (case watcherPages w of None \<Rightarrow> [] | Some ps \<Rightarrow> ps)"

section \<open>Collaborators\<close>

definition updateRocketHeader :: "string \<Rightarrow> world \<Rightarrow> world" where
  "updateRocketHeader sourceFilePath w = emit (UpdateRocketHeader sourceFilePath) w"

definition logRendering :: "string \<Rightarrow> world \<Rightarrow> world" where
  "logRendering msg w = emit (LogRendering msg) w"

definition consoleLog :: "string \<Rightarrow> world \<Rightarrow> world" where
  "consoleLog msg w = emit (ConsoleLog msg) w"

definition sourceRelative :: "engine \<Rightarrow> string \<Rightarrow> string" where
  "sourceRelative eng sourceFilePath = relative (cwd eng) (docsDir eng) sourceFilePath"

definition getOutputFilePath :: "engine \<Rightarrow> string \<Rightarrow> string" where
  "getOutputFilePath eng sourceFilePath =
     join [outputDir eng,
           sourceRelativeFilePathToOutputRelativeFilePath eng (sourceRelative eng sourceFilePath)]"

definition getSourceFilePathFromUrl :: "engine \<Rightarrow> string \<Rightarrow> string option" where
  "getSourceFilePathFromUrl eng url = urlToSourceFilePath eng url (docsDir eng)"

text \<open>
  Modelled from the spec: \<open>renderViaWorker\<close> is not part of the sources at hand. By
  section 4.3 a render writes the page's output file, also when the transformation fails
  (the error is rendered into the output); the engine's \<open>catch\<close> blocks show that the
  promise can still reject. It resolves to a result carrying \<open>sourceRelativeFilePath\<close>.
\<close>

definition renderFile :: "engine \<Rightarrow> string \<Rightarrow> world \<Rightarrow> (error + string) \<times> world" where
  "renderFile eng filePath w =
     (let w' = emit (RenderFile filePath)
                 (w\<lparr>files := (files w)(getOutputFilePath eng filePath := True)\<rparr>)
      in if renderRejects eng filePath w then (Inl (RenderError filePath), w')
         else (Inr (sourceRelative eng filePath), w'))"

text \<open>\<open>rm(path, {force: true})\<close>: the file is gone afterwards; a missing file is no error.\<close>

definition deleteOutputOf :: "engine \<Rightarrow> string \<Rightarrow> world \<Rightarrow> world" where
  "deleteOutputOf eng sourceFilePath w =
     emit (Rm (getOutputFilePath eng sourceFilePath))
       (w\<lparr>files := (files w)(getOutputFilePath eng sourceFilePath := False)\<rparr>)"

text \<open>
  Modelled from the spec: \<open>PageTree\<close> is not part of the sources at hand. By section 4.2
  \<open>add\<close> inserts or updates the node of a source-relative path in memory; \<open>save\<close>
  persists the tree and raises \<open>needsAnotherRenderingPass\<close> (and reports
  \<open>pageTreeChangedOnSave\<close>) when the persisted structure changed; by section 8 a page
  whose source file was deleted leaves the tree on the next save.
\<close>

definition newPageTree :: pageTree where
  "newPageTree = \<lparr>nodes = [], persisted = [], needsAnotherRenderingPass = False,
                  pageTreeChangedOnSave = False\<rparr>"

definition pageTree_add :: "string \<Rightarrow> world \<Rightarrow> world" where
  "pageTree_add sourceRelativeFilePath w =
     emit (PageTreeAdd sourceRelativeFilePath)
       (w\<lparr>pageTree := (pageTree w)\<lparr>nodes :=
            (if sourceRelativeFilePath \<in> set (nodes (pageTree w)) then nodes (pageTree w)
             else nodes (pageTree w) @ [sourceRelativeFilePath])\<rparr>\<rparr>)"

definition pageTree_save :: "engine \<Rightarrow> world \<Rightarrow> world" where
  "pageTree_save eng w =
     (let t = pageTree w;
          kept = filter (\<lambda>r. files w (join [docsDir eng, r])) (nodes t);
          changed = structureChanged eng (persisted t) kept
      in emit PageTreeSave
           (w\<lparr>pageTree := \<lparr>nodes = kept, persisted = kept,
                            needsAnotherRenderingPass = (needsAnotherRenderingPass t \<or> changed),
                            pageTreeChangedOnSave = changed\<rparr>\<rparr>))"

definition setNeedsAnotherRenderingPass :: "bool \<Rightarrow> world \<Rightarrow> world" where
  "setNeedsAnotherRenderingPass b w =
     w\<lparr>pageTree := (pageTree w)\<lparr>needsAnotherRenderingPass := b\<rparr>\<rparr>"


section \<open>The engine (\<open>Engine.js\<close>)\<close>

subsection \<open>\<open>prepare\<close>, \<open>stop\<close> and the file-system calls they make\<close>

definition mkdirRecursive :: "string \<Rightarrow> world \<Rightarrow> world" where
  "mkdirRecursive dir w =
     emit (Mkdir dir)
       (w\<lparr>files := (\<lambda>p. files w p \<or> p = dir \<or> startsWith dir (p @ ''/''))\<rparr>)"

definition clearOutputDir :: "engine \<Rightarrow> world \<Rightarrow> world" where
  "clearOutputDir eng w =
     emit (RmRecursive (outputDir eng))
       (w\<lparr>files := (\<lambda>p. files w p \<and> p \<noteq> outputDir eng
                            \<and> \<not> startsWith p (outputDir eng @ ''/''))\<rparr>)"

definition fseCopy :: "string \<Rightarrow> string \<Rightarrow> world \<Rightarrow> world" where
  "fseCopy src dst w =
     emit (Copy src dst)
       (w\<lparr>files := (\<lambda>p. files w p \<or> p = dst
                            \<or> (startsWith p (dst @ ''/'') \<and> files w (src @ drop (length dst) p)))\<rparr>)"

definition publicFolderMessage :: "plugin \<Rightarrow> string" where
  "publicFolderMessage p =
     ''Plugin '' @ constructorName p @ '' defined a public folder ''
       @ (case publicFolder p of None \<Rightarrow> ''undefined'' | Some folder \<Rightarrow> folder)
       @ '' but it does not exist.''"

text \<open>
  Lines 123 to 132: \<open>publicFolder && existsSync(publicFolder)\<close> is false for an undefined
  and for an empty \<open>publicFolder\<close>, and for a folder that is not on disk.
\<close>

fun copyPluginFolders :: "engine \<Rightarrow> plugin list \<Rightarrow> world \<Rightarrow> world" where
  "copyPluginFolders eng [] w = w"
| "copyPluginFolders eng (p # ps) w =
     copyPluginFolders eng ps
       (case publicFolder p of
          None \<Rightarrow> consoleLog (publicFolderMessage p) w
        | Some folder \<Rightarrow>
            if folder \<noteq> [] \<and> files w folder then fseCopy folder (outputDir eng) w
            else consoleLog (publicFolderMessage p) w)"

definition prepare :: "engine \<Rightarrow> bool \<Rightarrow> world \<Rightarrow> world" where
  "prepare eng clearOutput w =
     (let w1 = (if \<not> files w (outputDir eng) then mkdirRecursive (outputDir eng) w
                else if clearOutput then clearOutputDir eng w
                else w);
          publicDir = join [docsDir eng, ''__public''];
          w2 = (if files w1 publicDir then fseCopy publicDir (outputDir eng) w1 else w1)
      in case plugins eng of
           None \<Rightarrow> w2
         | Some ps \<Rightarrow> copyPluginFolders eng ps w2)"

definition stop :: "world \<Rightarrow> world" where
  "stop w = emit Stop w"

subsection \<open>\<open>renderAllOpenedFiles\<close>\<close>

text \<open>\<open>!!page.webSockets?.size ?? false\<close>\<close>

definition isOpenedInBrowser :: "page \<Rightarrow> bool" where
  "isOpenedInBrowser pg = (case webSockets pg of None \<Rightarrow> False | Some ws \<Rightarrow> length ws \<noteq> 0)"

definition openedMessage :: "engine \<Rightarrow> string \<Rightarrow> string" where
  "openedMessage eng sourceFilePath =
     sourceRelative eng sourceFilePath
       @ '' because it is opened in a browser tab and the page tree has changed.''"

text \<open>
  The loop over \<open>this.watcher.pages.entries()\<close>. The \<open>try\<close>/\<open>catch\<close> around the render
  drops a rejection and the loop goes on with the world the render left.
\<close>

fun sweepPages :: "engine \<Rightarrow> bool \<Rightarrow> string \<Rightarrow> (string \<times> page) list \<Rightarrow> world \<Rightarrow> world" where
  "sweepPages eng deleteOtherFiles triggerSourceFilePath [] w = w"
| "sweepPages eng deleteOtherFiles triggerSourceFilePath ((sourceFilePath, pg) # rest) w =
     (if triggerSourceFilePath \<noteq> [] \<and> triggerSourceFilePath = sourceFilePath then
        sweepPages eng deleteOtherFiles triggerSourceFilePath rest w
      else if isOpenedInBrowser pg then
        (case renderFile eng sourceFilePath (logRendering (openedMessage eng sourceFilePath) w) of
           (Inl e, w') \<Rightarrow> sweepPages eng deleteOtherFiles triggerSourceFilePath rest w'
         | (Inr res, w') \<Rightarrow> sweepPages eng deleteOtherFiles triggerSourceFilePath rest w')
      else if deleteOtherFiles then
        sweepPages eng deleteOtherFiles triggerSourceFilePath rest (deleteOutputOf eng sourceFilePath w)
      else sweepPages eng deleteOtherFiles triggerSourceFilePath rest w)"

definition renderAllOpenedFiles :: "engine \<Rightarrow> bool \<Rightarrow> string \<Rightarrow> world \<Rightarrow> world" where
  "renderAllOpenedFiles eng deleteOtherFiles triggerSourceFilePath w =
     (case watcherPages w of
        None \<Rightarrow> w
      | Some ps \<Rightarrow> sweepPages eng deleteOtherFiles triggerSourceFilePath ps w)"

subsection \<open>Render, add, save, and the extra pass\<close>

text \<open>
  The serve hook (lines 164 to 172) and the watch handler (lines 283 to 294) run the same
  statements inside their \<open>try\<close> block: \<open>renderAddSave\<close> is lines 164 to 166 (283 to 287),
  \<open>anotherPass\<close> is the \<open>if (pageTree.needsAnotherRenderingPass)\<close> that follows. A
  rejected render leaves the block at once.
\<close>

definition renderAddSave :: "engine \<Rightarrow> string \<Rightarrow> string \<Rightarrow> world \<Rightarrow> (error + unit) \<times> world" where
  "renderAddSave eng sourceFilePath sourceRelativeFilePath w =
     (case renderFile eng sourceFilePath w of
        (Inl e, w1) \<Rightarrow> (Inl e, w1)
      | (Inr res, w1) \<Rightarrow> (Inr (), pageTree_save eng (pageTree_add sourceRelativeFilePath w1)))"

definition againMessage :: "string \<Rightarrow> string" where
  "againMessage sourceRelativeFilePath =
     sourceRelativeFilePath @ '' again as the pageTree was modified.''"

definition anotherPass :: "engine \<Rightarrow> string \<Rightarrow> string \<Rightarrow> world \<Rightarrow> (error + unit) \<times> world" where
  "anotherPass eng sourceFilePath sourceRelativeFilePath w =
     (if needsAnotherRenderingPass (pageTree w) then
        (case renderFile eng sourceFilePath
                (logRendering (againMessage sourceRelativeFilePath) w) of
           (Inl e, w1) \<Rightarrow> (Inl e, w1)
         | (Inr res, w1) \<Rightarrow>
             (Inr (), setNeedsAnotherRenderingPass False
                        (renderAllOpenedFiles eng True sourceFilePath w1)))
      else (Inr (), w))"

definition renderAndCascade :: "engine \<Rightarrow> string \<Rightarrow> string \<Rightarrow> world \<Rightarrow> (error + unit) \<times> world" where
  "renderAndCascade eng sourceFilePath sourceRelativeFilePath w =
     (case renderAddSave eng sourceFilePath sourceRelativeFilePath w of
        (Inl e, w1) \<Rightarrow> (Inl e, w1)
      | (Inr u, w1) \<Rightarrow> anotherPass eng sourceFilePath sourceRelativeFilePath w1)"

text \<open>\<open>try { ... } catch (error) { }\<close>: the error is dropped, the effects so far stay.\<close>

definition catchAndIgnore :: "(error + unit) \<times> world \<Rightarrow> (error + unit) \<times> world" where
  "catchAndIgnore r = (case r of (Inl e, w) \<Rightarrow> (Inr (), w) | (Inr u, w) \<Rightarrow> (Inr u, w))"

subsection \<open>The serve hook of \<open>registerTabPlugin\<close>\<close>

definition registerTabScript :: string where
  "registerTabScript =
     ''import { sendMessage } from '' @ [CHR 0x27] @ ''/__web-dev-server__web-socket.js''
       @ [CHR 0x27] @ '';'' @ [CHR 0x0A] @ '' export default () => { sendMessage({ type: ''
       @ [CHR 0x27] @ ''register-tab'' @ [CHR 0x27]
       @ '', pathname: document.location.pathname }); }''"

definition requestedMessage :: "string \<Rightarrow> string" where
  "requestedMessage sourceRelativeFilePath =
     sourceRelativeFilePath @ '' because it got requested by a browser tab.''"

definition serve :: "engine \<Rightarrow> string \<Rightarrow> world \<Rightarrow> (error + string option) \<times> world" where
  "serve eng contextPath w =
     (if contextPath = ''/ws-register-tab.js'' then (Inr (Some registerTabScript), w)
      else
        (case getSourceFilePathFromUrl eng contextPath of
           None \<Rightarrow> (Inr None, w)
         | Some sourceFilePath \<Rightarrow>
             if sourceFilePath = [] then (Inr None, w)
             else if \<not> files w (getOutputFilePath eng sourceFilePath) then
               (let r = sourceRelative eng sourceFilePath;
                    w1 = logRendering (requestedMessage r) (updateRocketHeader sourceFilePath w)
                in case catchAndIgnore (renderAndCascade eng sourceFilePath r w1) of
                     (Inl e, w2) \<Rightarrow> (Inl e, w2)
                   | (Inr u, w2) \<Rightarrow> (Inr None, w2))
             else (Inr None, w)))"

subsection \<open>The watcher's callbacks\<close>

definition onPageSavedOrOpenedTabAndServerDependencyChanged ::
    "engine \<Rightarrow> string \<Rightarrow> world \<Rightarrow> (error + unit) \<times> world" where
  "onPageSavedOrOpenedTabAndServerDependencyChanged eng sourceFilePath w =
     catchAndIgnore
       (renderAndCascade eng sourceFilePath (sourceRelative eng sourceFilePath)
          (updateRocketHeader sourceFilePath w))"

definition onPageServerDependencySaved :: "engine \<Rightarrow> string \<Rightarrow> world \<Rightarrow> world" where
  "onPageServerDependencySaved eng sourceFilePath w =
     deleteOutputOf eng sourceFilePath (updateRocketHeader sourceFilePath w)"

definition onPageDeleted :: "engine \<Rightarrow> string \<Rightarrow> world \<Rightarrow> world" where
  "onPageDeleted eng sourceFilePath w = deleteOutputOf eng sourceFilePath w"

subsection \<open>\<open>build\<close>\<close>

text \<open>
  The two loops of \<open>build\<close> have no \<open>try\<close>: a rejected render ends the loop and the
  build. \<open>sourceFiles\<close> is what \<open>gatherFiles(this.docsDir)\<close> returned; the page tree of a
  build is a new one.
\<close>

fun renderAndAddAll :: "engine \<Rightarrow> string list \<Rightarrow> world \<Rightarrow> (error + unit) \<times> world" where
  "renderAndAddAll eng [] w = (Inr (), w)"
| "renderAndAddAll eng (sourceFilePath # rest) w =
     (case renderFile eng sourceFilePath (updateRocketHeader sourceFilePath w) of
        (Inl e, w1) \<Rightarrow> (Inl e, w1)
      | (Inr sourceRelativeFilePath, w1) \<Rightarrow>
          renderAndAddAll eng rest (pageTree_add sourceRelativeFilePath w1))"

fun renderAll :: "engine \<Rightarrow> string list \<Rightarrow> world \<Rightarrow> (error + unit) \<times> world" where
  "renderAll eng [] w = (Inr (), w)"
| "renderAll eng (sourceFilePath # rest) w =
     (case renderFile eng sourceFilePath w of
        (Inl e, w1) \<Rightarrow> (Inl e, w1)
      | (Inr res, w1) \<Rightarrow> renderAll eng rest w1)"

definition build :: "engine \<Rightarrow> string list \<Rightarrow> world \<Rightarrow> (error + unit) \<times> world" where
  "build eng sourceFiles w =
     (let w0 = (prepare eng True w)\<lparr>pageTree := newPageTree\<rparr>
      in if sourceFiles \<noteq> [] then
           (case renderAndAddAll eng sourceFiles w0 of
              (Inl e, w1) \<Rightarrow> (Inl e, w1)
            | (Inr u, w1) \<Rightarrow>
                (let w2 = pageTree_save eng w1
                 in if pageTreeChangedOnSave (pageTree w2) then
                      (case renderAll eng sourceFiles w2 of
                         (Inl e, w3) \<Rightarrow> (Inl e, w3)
                       | (Inr u', w3) \<Rightarrow> (Inr (), stop w3))
                    else (Inr (), stop w2)))
         else (Inr (), stop w0))"

subsection \<open>\<open>adjustAssetUrl\<close> of \<open>devServerAdjustAssetUrls\<close>\<close>

definition adjustAssetUrl :: "engine \<Rightarrow> string \<Rightarrow> string \<Rightarrow> string" where
  "adjustAssetUrl eng url outputFilePath =
     (if startsWith url ''./'' \<or> startsWith url ''../'' then
        (let assetFilePath = join [dirname outputFilePath, url];
             relPath = relative (cwd eng) (outputDir eng) assetFilePath
         in case stripParents relPath 0 of
              (count, relPath') \<Rightarrow> ''/__wds-outside-root__/'' @ showNat count @ ''/'' @ relPath')
      else url)"


section \<open>What a sweep emits\<close>

text \<open>
  The events of one iteration of the loop in \<open>renderAllOpenedFiles\<close>, and of the whole
  loop. A render emits the same events whether it rejects or not.
\<close>

definition pageSweepEvents :: "engine \<Rightarrow> bool \<Rightarrow> string \<Rightarrow> string \<times> page \<Rightarrow> event list" where
  "pageSweepEvents eng deleteOtherFiles triggerSourceFilePath entry =
     (if triggerSourceFilePath \<noteq> [] \<and> triggerSourceFilePath = fst entry then []
      else if isOpenedInBrowser (snd entry) then
        [LogRendering (openedMessage eng (fst entry)), RenderFile (fst entry)]
      else if deleteOtherFiles then [Rm (getOutputFilePath eng (fst entry))]
      else [])"

text \<open>The world after one iteration of that loop.\<close>

definition sweepStep :: "engine \<Rightarrow> bool \<Rightarrow> string \<Rightarrow> string \<times> page \<Rightarrow> world \<Rightarrow> world" where
  "sweepStep eng deleteOtherFiles triggerSourceFilePath entry w =
     (if triggerSourceFilePath \<noteq> [] \<and> triggerSourceFilePath = fst entry then w
      else if isOpenedInBrowser (snd entry) then
        snd (renderFile eng (fst entry) (logRendering (openedMessage eng (fst entry)) w))
      else if deleteOtherFiles then deleteOutputOf eng (fst entry) w
      else w)"

definition sweepEvents :: "engine \<Rightarrow> bool \<Rightarrow> string \<Rightarrow> (string \<times> page) list \<Rightarrow> event list" where
  "sweepEvents eng deleteOtherFiles triggerSourceFilePath ps =
     concat (map (pageSweepEvents eng deleteOtherFiles triggerSourceFilePath) ps)"

text \<open>The events of \<open>prepare\<close>: file-system calls and console output.\<close>

fun isPrepareEvent :: "event \<Rightarrow> bool" where
  "isPrepareEvent (Mkdir dir) = True"
| "isPrepareEvent (RmRecursive dir) = True"
| "isPrepareEvent (Copy src dst) = True"
| "isPrepareEvent (ConsoleLog msg) = True"
| "isPrepareEvent e = False"

text \<open>The events of the first loop of \<open>build\<close> for one source file.\<close>

definition firstPassEvents :: "engine \<Rightarrow> string \<Rightarrow> event list" where
  "firstPassEvents eng sourceFilePath =
     [UpdateRocketHeader sourceFilePath, RenderFile sourceFilePath,
      PageTreeAdd (sourceRelative eng sourceFilePath)]"

section \<open>Example project\<close>

text \<open>
  A project in \<open>/proj\<close> with five tracked pages, one of which (\<open>broken.md\<close>) makes the
  render reject, one plugin with a public folder on disk and one plugin without any.
\<close>

definition demoEngine :: engine where
  "demoEngine =
     \<lparr>cwd = ''/proj'', docsDir = ''/proj/docs'', outputDir = ''/proj/_site-dev'',
      plugins = Some [\<lparr>constructorName = ''EnginePluginLaunch'',
                        publicFolder = Some ''/proj/launch/__public''\<rparr>,
                      \<lparr>constructorName = ''PlainPlugin'', publicFolder = None\<rparr>],
      renderRejects = (\<lambda>filePath w. filePath = ''/proj/docs/broken.md''),
      urlToSourceFilePath =
        (\<lambda>url dir. if url = ''/a/'' then Some (dir @ ''/a.md'')
                    else if url = ''/b/'' then Some (dir @ ''/b.md'')
                    else if url = ''/broken/'' then Some (dir @ ''/broken.md'')
                    else None),
      sourceRelativeFilePathToOutputRelativeFilePath = (\<lambda>r. r @ ''.html''),
      structureChanged = (\<lambda>old new. old \<noteq> new)\<rparr>"

definition demoWorld :: world where
  "demoWorld =
     \<lparr>files = (\<lambda>p. p \<in> set [''/proj/docs/a.md'', ''/proj/docs/b.md'', ''/proj/docs/c.md'',
                              ''/proj/docs/broken.md'', ''/proj/launch/__public'',
                              ''/proj/_site-dev/b.md.html'']),
      pageTree = newPageTree,
      watcherPages = Some [(''/proj/docs/a.md'', \<lparr>webSockets = Some [1]\<rparr>),
                           (''/proj/docs/broken.md'', \<lparr>webSockets = Some [4]\<rparr>),
                           (''/proj/docs/b.md'', \<lparr>webSockets = Some [2, 3]\<rparr>),
                           (''/proj/docs/c.md'', \<lparr>webSockets = Some []\<rparr>),
                           (''/proj/docs/d.md'', \<lparr>webSockets = None\<rparr>)],
      events = []\<rparr>"

text \<open>The same project after \<open>a.md\<close>, a page of the tree with an output file, was deleted.\<close>

definition demoWorldWithoutA :: world where
  "demoWorldWithoutA =
     demoWorld\<lparr>files := (files demoWorld)(''/proj/docs/a.md'' := False,
                                             ''/proj/_site-dev/a.md.html'' := True),
               pageTree := newPageTree\<lparr>nodes := [''a.md'', ''b.md'']\<rparr>\<rparr>"

text \<open>The same engine with a worker that rejects every render once the tree was saved.\<close>

definition flakyEngine :: engine where
  "flakyEngine = demoEngine\<lparr>renderRejects := (\<lambda>filePath w. PageTreeSave \<in> set (events w))\<rparr>"

section \<open>Basic facts about the operations\<close>

lemma emit_fields [simp]:
  "events (emit e w) = events w @ [e]"
  "files (emit e w) = files w"
  "pageTree (emit e w) = pageTree w"
  "watcherPages (emit e w) = watcherPages w"
  by (simp_all add: emit_def)

lemma emitted_append [simp]: "events w' = events w @ es \<Longrightarrow> emitted w w' = es"
  by (simp add: emitted_def)

lemma renderFile_world:
  "snd (renderFile eng f w)
     = emit (RenderFile f) (w\<lparr>files := (files w)(getOutputFilePath eng f := True)\<rparr>)"
  by (simp add: renderFile_def Let_def)

lemma renderFile_result:
  "fst (renderFile eng f w)
     = (if renderRejects eng f w then Inl (RenderError f) else Inr (sourceRelative eng f))"
  by (simp add: renderFile_def Let_def)

lemma renderFile_fields [simp]:
  "events (snd (renderFile eng f w)) = events w @ [RenderFile f]"
  "pageTree (snd (renderFile eng f w)) = pageTree w"
  "watcherPages (snd (renderFile eng f w)) = watcherPages w"
  "files (snd (renderFile eng f w)) = (files w)(getOutputFilePath eng f := True)"
  by (simp_all add: renderFile_world)

lemma deleteOutputOf_fields [simp]:
  "events (deleteOutputOf eng f w) = events w @ [Rm (getOutputFilePath eng f)]"
  "pageTree (deleteOutputOf eng f w) = pageTree w"
  "watcherPages (deleteOutputOf eng f w) = watcherPages w"
  "files (deleteOutputOf eng f w) = (files w)(getOutputFilePath eng f := False)"
  by (simp_all add: deleteOutputOf_def)

lemma logRendering_fields [simp]:
  "events (logRendering m w) = events w @ [LogRendering m]"
  "pageTree (logRendering m w) = pageTree w"
  "watcherPages (logRendering m w) = watcherPages w"
  "files (logRendering m w) = files w"
  by (simp_all add: logRendering_def)

lemma updateRocketHeader_fields [simp]:
  "events (updateRocketHeader f w) = events w @ [UpdateRocketHeader f]"
  "pageTree (updateRocketHeader f w) = pageTree w"
  "watcherPages (updateRocketHeader f w) = watcherPages w"
  "files (updateRocketHeader f w) = files w"
  by (simp_all add: updateRocketHeader_def)

lemma sweepPages_step:
  "sweepPages eng d t (entry # rest) w = sweepPages eng d t rest (sweepStep eng d t entry w)"
  by (cases entry) (simp add: sweepStep_def split: prod.splits sum.splits)

lemma sweepStep_fields [simp]:
  "events (sweepStep eng d t entry w) = events w @ pageSweepEvents eng d t entry"
  "pageTree (sweepStep eng d t entry w) = pageTree w"
  "watcherPages (sweepStep eng d t entry w) = watcherPages w"
  by (simp_all add: sweepStep_def pageSweepEvents_def)

lemma sweepStep_files_other:
  "getOutputFilePath eng (fst entry) \<noteq> p \<Longrightarrow> files (sweepStep eng d t entry w) p = files w p"
  by (simp add: sweepStep_def)

lemma sweepPages_events:
  "events (sweepPages eng d t ps w) = events w @ sweepEvents eng d t ps"
proof (induction ps arbitrary: w)
  case Nil
  show ?case by (simp add: sweepEvents_def)
next
  case (Cons entry ps)
  have "sweepEvents eng d t (entry # ps) = pageSweepEvents eng d t entry @ sweepEvents eng d t ps"
    by (simp add: sweepEvents_def)
  then show ?case
    by (simp only: sweepPages_step Cons.IH sweepStep_fields append_assoc)
qed

lemma sweepPages_pageTree: "pageTree (sweepPages eng d t ps w) = pageTree w"
proof (induction ps arbitrary: w)
  case Nil
  show ?case by simp
next
  case (Cons entry ps)
  show ?case
    by (simp only: sweepPages_step Cons.IH sweepStep_fields)
qed

lemma sweepPages_watcherPages: "watcherPages (sweepPages eng d t ps w) = watcherPages w"
proof (induction ps arbitrary: w)
  case Nil
  show ?case by simp
next
  case (Cons entry ps)
  show ?case
    by (simp only: sweepPages_step Cons.IH sweepStep_fields)
qed

lemma sweepPages_files_other:
  "\<forall>entry \<in> set ps. getOutputFilePath eng (fst entry) \<noteq> p \<Longrightarrow>
     files (sweepPages eng d t ps w) p = files w p"
proof (induction ps arbitrary: w)
  case Nil
  show ?case by simp
next
  case (Cons entry ps)
  from Cons.prems have rest: "\<forall>entry \<in> set ps. getOutputFilePath eng (fst entry) \<noteq> p"
    and here: "getOutputFilePath eng (fst entry) \<noteq> p"
    by simp_all
  show ?case
    by (simp only: sweepPages_step Cons.IH [OF rest] sweepStep_files_other [OF here])
qed

lemma renderAllOpenedFiles_events:
  "events (renderAllOpenedFiles eng d t w) = events w @ sweepEvents eng d t (trackedPages w)"
  by (simp add: renderAllOpenedFiles_def trackedPages_def sweepPages_events sweepEvents_def
           split: option.splits)

lemma renderAllOpenedFiles_pageTree: "pageTree (renderAllOpenedFiles eng d t w) = pageTree w"
  by (simp add: renderAllOpenedFiles_def sweepPages_pageTree split: option.splits)

lemma renderAllOpenedFiles_watcherPages:
  "watcherPages (renderAllOpenedFiles eng d t w) = watcherPages w"
  by (simp add: renderAllOpenedFiles_def sweepPages_watcherPages split: option.splits)

lemma stripParents_spec:
  "stripParents s n = (c, r) \<Longrightarrow>
     n \<le> c \<and> s = concat (replicate (c - n) ''../'') @ r \<and> \<not> startsWith r ''../''"
proof (induction s n rule: stripParents.induct)
  case (1 relPath count)
  show ?case
  proof (cases "startsWith relPath ''../''")
    case True
    with "1.prems" have rec: "stripParents (drop 3 relPath) (count + 1) = (c, r)"
      by simp
    from "1.IH" [OF True rec]
    have le: "count + 1 \<le> c"
      and eq: "drop 3 relPath = concat (replicate (c - (count + 1)) ''../'') @ r"
      and no: "\<not> startsWith r ''../''"
      by auto
    from True have "relPath = ''../'' @ drop 3 relPath"
      by (metis append_take_drop_id length_Cons list.size(3) numeral_3_eq_3 startsWith_def)
    with eq have "relPath = ''../'' @ concat (replicate (c - (count + 1)) ''../'') @ r"
      by simp
    moreover from le have "c - count = Suc (c - (count + 1))"
      by simp
    ultimately have "relPath = concat (replicate (c - count) ''../'') @ r"
      by simp
    with le no show ?thesis by simp
  next
    case False
    with "1.prems" show ?thesis by simp
  qed
qed

lemma pageTree_add_fields [simp]:
  "events (pageTree_add r w) = events w @ [PageTreeAdd r]"
  "watcherPages (pageTree_add r w) = watcherPages w"
  "files (pageTree_add r w) = files w"
  by (simp_all add: pageTree_add_def)

lemma pageTree_save_fields [simp]:
  "events (pageTree_save eng w) = events w @ [PageTreeSave]"
  "watcherPages (pageTree_save eng w) = watcherPages w"
  "files (pageTree_save eng w) = files w"
  by (simp_all add: pageTree_save_def Let_def)

lemma pageTree_save_nodes:
  "nodes (pageTree (pageTree_save eng w))
     = filter (\<lambda>r. files w (join [docsDir eng, r])) (nodes (pageTree w))"
  by (simp add: pageTree_save_def Let_def)

lemma setNeedsAnotherRenderingPass_fields [simp]:
  "events (setNeedsAnotherRenderingPass b w) = events w"
  "watcherPages (setNeedsAnotherRenderingPass b w) = watcherPages w"
  "files (setNeedsAnotherRenderingPass b w) = files w"
  "needsAnotherRenderingPass (pageTree (setNeedsAnotherRenderingPass b w)) = b"
  by (simp_all add: setNeedsAnotherRenderingPass_def)

lemma trackedPages_cong: "watcherPages w' = watcherPages w \<Longrightarrow> trackedPages w' = trackedPages w"
  by (simp add: trackedPages_def)

lemma sweepPages_files_deleted:
  assumes "distinct (map fst ps)"
    and "inj_on (getOutputFilePath eng) (fst ` set ps)"
    and "(f, pg) \<in> set ps" and "f \<noteq> t" and "\<not> isOpenedInBrowser pg"
  shows "\<not> files (sweepPages eng True t ps w) (getOutputFilePath eng f)"
  using assms(1,2,3)
proof (induction ps arbitrary: w)
  case Nil
  then show ?case by simp
next
  case (Cons entry ps)
  show ?case
  proof (cases "fst entry = f")
    case True
    with Cons.prems have "snd entry = pg"
      by (metis eq_key_imp_eq_value list.set_intros(1) prod.collapse)
    with True assms(4,5)
    have step: "\<not> files (sweepStep eng True t entry w) (getOutputFilePath eng f)"
      by (auto simp: sweepStep_def)
    have "\<forall>e \<in> set ps. getOutputFilePath eng (fst e) \<noteq> getOutputFilePath eng f"
    proof
      fix e assume e: "e \<in> set ps"
      with Cons.prems(1) True have "fst e \<noteq> f"
        by (metis distinct.simps(2) image_eqI list.simps(9) set_map)
      moreover from e have "fst e \<in> fst ` set (entry # ps)" by simp
      moreover have "f \<in> fst ` set (entry # ps)" using True by force
      ultimately show "getOutputFilePath eng (fst e) \<noteq> getOutputFilePath eng f"
        using Cons.prems(2) by (meson inj_onD)
    qed
    from sweepPages_files_other [OF this] step
    show ?thesis
      by (simp add: sweepPages_step)
  next
    case False
    with Cons.prems have mem: "(f, pg) \<in> set ps" by auto
    from Cons.prems have d: "distinct (map fst ps)" by simp
    from Cons.prems(2) have i: "inj_on (getOutputFilePath eng) (fst ` set ps)"
      by (rule inj_on_subset) auto
    show ?thesis
      by (simp add: sweepPages_step Cons.IH [OF d i mem])
  qed
qed

lemma pageSweepEvents_render:
  "RenderFile f \<in> set (pageSweepEvents eng d t entry) \<Longrightarrow> fst entry = f \<and> isOpenedInBrowser (snd entry)"
  by (auto simp: pageSweepEvents_def split: if_splits)

lemma sweepEvents_set:
  "set (sweepEvents eng d t ps) = (\<Union>entry \<in> set ps. set (pageSweepEvents eng d t entry))"
  by (simp add: sweepEvents_def)

lemma renderAddSave_events:
  "events (snd (renderAddSave eng f r w))
     = events w @ RenderFile f # (if renderRejects eng f w then [] else [PageTreeAdd r, PageTreeSave])"
  by (simp add: renderAddSave_def renderFile_def Let_def)

lemma renderAddSave_result:
  "fst (renderAddSave eng f r w) = (if renderRejects eng f w then Inl (RenderError f) else Inr ())"
  by (simp add: renderAddSave_def renderFile_def Let_def)

lemma renderAddSave_watcherPages: "watcherPages (snd (renderAddSave eng f r w)) = watcherPages w"
  by (simp add: renderAddSave_def renderFile_def Let_def)

lemma anotherPass_events:
  "events (snd (anotherPass eng f r w))
     = events w @
       (if needsAnotherRenderingPass (pageTree w) then
          LogRendering (againMessage r) # RenderFile f #
            (if renderRejects eng f (logRendering (againMessage r) w) then []
             else sweepEvents eng True f (trackedPages w))
        else [])"
  by (simp add: anotherPass_def renderFile_def Let_def renderAllOpenedFiles_events
        trackedPages_def)

lemma anotherPass_result:
  "fst (anotherPass eng f r w)
     = (if needsAnotherRenderingPass (pageTree w) \<and> renderRejects eng f (logRendering (againMessage r) w)
        then Inl (RenderError f) else Inr ())"
  by (simp add: anotherPass_def renderFile_def Let_def)

lemma anotherPass_flag:
  "fst (anotherPass eng f r w) = Inr () \<Longrightarrow>
     \<not> needsAnotherRenderingPass (pageTree (snd (anotherPass eng f r w)))"
  by (simp add: anotherPass_def renderFile_def Let_def split: if_splits)

lemma renderAndCascade_split:
  "renderAndCascade eng f r w =
     (if renderRejects eng f w then renderAddSave eng f r w
      else anotherPass eng f r (snd (renderAddSave eng f r w)))"
  by (simp add: renderAndCascade_def renderAddSave_def renderFile_def Let_def)

lemma renderAndCascade_first_event:
  "\<exists>rest. events (snd (renderAndCascade eng f r w)) = events w @ RenderFile f # rest"
  by (simp add: renderAndCascade_split renderAddSave_events anotherPass_events)

lemma catchAndIgnore_world [simp]: "snd (catchAndIgnore r) = snd r"
  by (cases r) (simp add: catchAndIgnore_def split: sum.splits)

lemma catchAndIgnore_result [simp]: "fst (catchAndIgnore r) = Inr ()"
  by (cases r) (simp add: catchAndIgnore_def split: sum.splits)

lemma serve_world:
  assumes "contextPath \<noteq> ''/ws-register-tab.js''"
    and "getSourceFilePathFromUrl eng contextPath = Some f" and "f \<noteq> []"
    and "\<not> files w (getOutputFilePath eng f)"
  shows "snd (serve eng contextPath w)
           = snd (renderAndCascade eng f (sourceRelative eng f)
                    (logRendering (requestedMessage (sourceRelative eng f)) (updateRocketHeader f w)))"
proof -
  let ?r = "catchAndIgnore (renderAndCascade eng f (sourceRelative eng f)
                    (logRendering (requestedMessage (sourceRelative eng f)) (updateRocketHeader f w)))"
  have "snd (case ?r of (Inl e, w2) \<Rightarrow> (Inl e, w2) | (Inr u, w2) \<Rightarrow> (Inr None, w2)) = snd ?r"
    by (cases ?r) (simp split: sum.splits)
  with assms show ?thesis
    by (simp add: serve_def Let_def)
qed

lemma serve_result: "\<exists>v. fst (serve eng contextPath w) = Inr v"
proof -
  have a: "\<And>r. \<exists>v. fst (case catchAndIgnore r of (Inl e, w2) \<Rightarrow> (Inl e, w2)
                                   | (Inr u, w2) \<Rightarrow> (Inr None, w2)) = Inr v"
  proof -
    fix r :: "(error + unit) \<times> world"
    obtain x w' where r: "r = (x, w')" by (cases r)
    show "\<exists>v. fst (case catchAndIgnore r of (Inl e, w2) \<Rightarrow> (Inl e, w2)
                                   | (Inr u, w2) \<Rightarrow> (Inr None, w2)) = Inr v"
      by (cases x) (simp_all add: r catchAndIgnore_def)
  qed
  show ?thesis
    by (simp add: serve_def Let_def a split: option.splits)
qed

lemma handler_world:
  "snd (onPageSavedOrOpenedTabAndServerDependencyChanged eng f w)
     = snd (renderAndCascade eng f (sourceRelative eng f) (updateRocketHeader f w))"
  by (simp add: onPageSavedOrOpenedTabAndServerDependencyChanged_def)

lemma handler_first_events:
  "\<exists>rest. events (snd (onPageSavedOrOpenedTabAndServerDependencyChanged eng f w))
            = events w @ UpdateRocketHeader f # RenderFile f # rest"
proof -
  obtain rest where
    "events (snd (renderAndCascade eng f (sourceRelative eng f) (updateRocketHeader f w)))
       = events (updateRocketHeader f w) @ RenderFile f # rest"
    using renderAndCascade_first_event by blast
  then show ?thesis
    by (simp add: handler_world)
qed


lemma sweepEvents_renders_open:
  "entry \<in> set ps \<Longrightarrow> \<not> (t \<noteq> [] \<and> t = fst entry) \<Longrightarrow> isOpenedInBrowser (snd entry) \<Longrightarrow>
     RenderFile (fst entry) \<in> set (sweepEvents eng d t ps)"
  unfolding sweepEvents_set
  by (rule UN_I [of entry]) (auto simp: pageSweepEvents_def)

lemma renderAddSave_ok:
  assumes "\<not> renderRejects eng f w"
  shows "fst (renderAddSave eng f r w) = Inr ()"
    and "events (snd (renderAddSave eng f r w)) = events w @ [RenderFile f, PageTreeAdd r, PageTreeSave]"
  using assms by (simp_all add: renderAddSave_events renderAddSave_result)

lemma cascade_after_save:
  assumes renders: "\<forall>w'. \<not> renderRejects eng f w'"
  shows "snd (renderAndCascade eng f r w) = snd (anotherPass eng f r (snd (renderAddSave eng f r w)))"
    and "needsAnotherRenderingPass (pageTree (snd (renderAddSave eng f r w))) \<Longrightarrow>
           events (snd (renderAndCascade eng f r w))
             = events (snd (renderAddSave eng f r w))
               @ LogRendering (againMessage r) # RenderFile f # sweepEvents eng True f (trackedPages w)"
    and "needsAnotherRenderingPass (pageTree (snd (renderAddSave eng f r w))) \<Longrightarrow>
           \<not> needsAnotherRenderingPass (pageTree (snd (renderAndCascade eng f r w)))"
    and "\<not> needsAnotherRenderingPass (pageTree (snd (renderAddSave eng f r w))) \<Longrightarrow>
           snd (renderAndCascade eng f r w) = snd (renderAddSave eng f r w)"
proof -
  let ?s = "snd (renderAddSave eng f r w)"
  show split: "snd (renderAndCascade eng f r w) = snd (anotherPass eng f r ?s)"
    using renders by (simp add: renderAndCascade_split)
  have tp: "trackedPages ?s = trackedPages w"
    by (rule trackedPages_cong) (rule renderAddSave_watcherPages)
  show "events (snd (renderAndCascade eng f r w))
             = events ?s @ LogRendering (againMessage r) # RenderFile f # sweepEvents eng True f (trackedPages w)"
    if "needsAnotherRenderingPass (pageTree ?s)"
    using that renders by (simp add: split anotherPass_events tp)
  show "\<not> needsAnotherRenderingPass (pageTree (snd (renderAndCascade eng f r w)))"
    if "needsAnotherRenderingPass (pageTree ?s)"
  proof -
    from renders have "fst (anotherPass eng f r ?s) = Inr ()"
      by (simp add: anotherPass_result)
    from anotherPass_flag [OF this] show ?thesis
      by (simp add: split)
  qed
  show "snd (renderAndCascade eng f r w) = ?s"
    if "\<not> needsAnotherRenderingPass (pageTree ?s)"
    using that by (simp add: split anotherPass_def)
qed

lemma pageSweepEvents_count_render:
  "count_list (pageSweepEvents eng d t entry) (RenderFile p)
     = (if fst entry = p \<and> isOpenedInBrowser (snd entry) \<and> \<not> (t \<noteq> [] \<and> t = p) then 1 else 0)"
  by (auto simp: pageSweepEvents_def)

lemma sweepEvents_count_render:
  "count_list (sweepEvents eng d t ps) (RenderFile p)
     = length (filter (\<lambda>entry. fst entry = p \<and> isOpenedInBrowser (snd entry)
                                \<and> \<not> (t \<noteq> [] \<and> t = p)) ps)"
proof (induction ps)
  case Nil
  show ?case by (simp add: sweepEvents_def)
next
  case (Cons entry ps)
  have "sweepEvents eng d t (entry # ps) = pageSweepEvents eng d t entry @ sweepEvents eng d t ps"
    by (simp add: sweepEvents_def)
  then show ?case
    by (simp add: pageSweepEvents_count_render Cons.IH)
qed

lemma distinct_keys_count:
  "distinct (map fst ps) \<Longrightarrow> (p, pg) \<in> set ps \<Longrightarrow>
     length (filter (\<lambda>entry. fst entry = p \<and> Q (snd entry)) ps) = (if Q pg then 1 else 0)"
proof (induction ps)
  case Nil
  then show ?case by simp
next
  case (Cons entry ps)
  show ?case
  proof (cases "entry = (p, pg)")
    case True
    with Cons.prems have "p \<notin> fst ` set ps" by simp
    then have "filter (\<lambda>entry. fst entry = p \<and> Q (snd entry)) ps = []"
      by (auto simp: filter_empty_conv)
    with True show ?thesis by simp
  next
    case False
    with Cons.prems have mem: "(p, pg) \<in> set ps" and d: "distinct (map fst ps)"
      by simp_all
    from mem have "p \<in> fst ` set ps" by force
    with Cons.prems have "fst entry \<noteq> p" by auto
    with Cons.IH [OF d mem] show ?thesis by simp
  qed
qed

lemma sweepEvents_render_once:
  assumes "distinct (map fst ps)" and "entry \<in> set ps"
    and "fst entry \<noteq> t" and "isOpenedInBrowser (snd entry)"
  shows "count_list (sweepEvents eng d t ps) (RenderFile (fst entry)) = 1"
proof -
  from assms(2) have mem: "(fst entry, snd entry) \<in> set ps" by simp
  have "length (filter (\<lambda>e. fst e = fst entry \<and> (isOpenedInBrowser (snd e)
                                \<and> \<not> (t \<noteq> [] \<and> t = fst entry))) ps)
        = (if isOpenedInBrowser (snd entry) \<and> \<not> (t \<noteq> [] \<and> t = fst entry) then 1 else 0)"
    by (rule distinct_keys_count [OF assms(1) mem,
          where Q = "\<lambda>pg. isOpenedInBrowser pg \<and> \<not> (t \<noteq> [] \<and> t = fst entry)"])
  with assms(3,4) show ?thesis
    by (auto simp: sweepEvents_count_render)
qed

lemma sweepEvents_trigger_never:
  "t \<noteq> [] \<Longrightarrow> count_list (sweepEvents eng d t ps) (RenderFile t) = 0"
  by (simp add: sweepEvents_count_render)

lemma copyPluginFolders_events:
  "\<exists>es. events (copyPluginFolders eng ps w) = events w @ es \<and> list_all isPrepareEvent es"
proof (induction ps arbitrary: w)
  case Nil
  show ?case by simp
next
  case (Cons p ps)
  let ?w1 = "(case publicFolder p of
          None \<Rightarrow> consoleLog (publicFolderMessage p) w
        | Some folder \<Rightarrow>
            if folder \<noteq> [] \<and> files w folder then fseCopy folder (outputDir eng) w
            else consoleLog (publicFolderMessage p) w)"
  have step: "\<exists>e. events ?w1 = events w @ [e] \<and> isPrepareEvent e"
    by (simp add: consoleLog_def fseCopy_def split: option.splits)
  then obtain e where e: "events ?w1 = events w @ [e]" "isPrepareEvent e"
    by blast
  from Cons.IH [of ?w1] obtain es where
    es: "events (copyPluginFolders eng ps ?w1) = events ?w1 @ es" "list_all isPrepareEvent es"
    by blast
  have "copyPluginFolders eng (p # ps) w = copyPluginFolders eng ps ?w1"
    by simp
  with e es have "events (copyPluginFolders eng (p # ps) w) = events w @ (e # es)
      \<and> list_all isPrepareEvent (e # es)"
    by simp
  then show ?case by blast
qed

lemma prepare_events:
  "\<exists>es. events (prepare eng clearOutput w) = events w @ es \<and> list_all isPrepareEvent es"
proof -
  let ?w1 = "(if \<not> files w (outputDir eng) then mkdirRecursive (outputDir eng) w
                else if clearOutput then clearOutputDir eng w
                else w)"
  let ?publicDir = "join [docsDir eng, ''__public'']"
  let ?w2 = "(if files ?w1 ?publicDir then fseCopy ?publicDir (outputDir eng) ?w1 else ?w1)"
  have "\<exists>es. events ?w1 = events w @ es \<and> list_all isPrepareEvent es"
    by (simp add: mkdirRecursive_def clearOutputDir_def)
  then obtain es1 where es1: "events ?w1 = events w @ es1" "list_all isPrepareEvent es1"
    by blast
  have "\<exists>es. events ?w2 = events ?w1 @ es \<and> list_all isPrepareEvent es"
    by (simp add: fseCopy_def)
  then obtain es2 where es2: "events ?w2 = events ?w1 @ es2" "list_all isPrepareEvent es2"
    by blast
  have "\<exists>es. events (case plugins eng of None \<Rightarrow> ?w2 | Some ps \<Rightarrow> copyPluginFolders eng ps ?w2)
               = events ?w2 @ es \<and> list_all isPrepareEvent es"
    by (cases "plugins eng") (simp_all add: copyPluginFolders_events)
  then obtain es3 where
    es3: "events (case plugins eng of None \<Rightarrow> ?w2 | Some ps \<Rightarrow> copyPluginFolders eng ps ?w2)
               = events ?w2 @ es3" "list_all isPrepareEvent es3"
    by blast
  have "prepare eng clearOutput w
          = (case plugins eng of None \<Rightarrow> ?w2 | Some ps \<Rightarrow> copyPluginFolders eng ps ?w2)"
    by (simp add: prepare_def Let_def)
  with es1 es2 es3 have "events (prepare eng clearOutput w) = events w @ (es1 @ es2 @ es3)
      \<and> list_all isPrepareEvent (es1 @ es2 @ es3)"
    by simp
  then show ?thesis by blast
qed

lemma count_prepare_events:
  "list_all isPrepareEvent es \<Longrightarrow>
     count_list es (RenderFile f) = 0 \<and> count_list es PageTreeSave = 0
     \<and> count_list es (PageTreeAdd r) = 0"
  by (induction es) auto

lemma renderAndAddAll_ok:
  "\<forall>f \<in> set fs. \<forall>w'. \<not> renderRejects eng f w' \<Longrightarrow>
     fst (renderAndAddAll eng fs w) = Inr ()
     \<and> events (snd (renderAndAddAll eng fs w)) = events w @ concat (map (firstPassEvents eng) fs)"
proof (induction fs arbitrary: w)
  case Nil
  show ?case by simp
next
  case (Cons f fs)
  from Cons.prems have ok: "\<not> renderRejects eng f (updateRocketHeader f w)"
    and rest: "\<forall>f \<in> set fs. \<forall>w'. \<not> renderRejects eng f w'"
    by simp_all
  let ?w1 = "pageTree_add (sourceRelative eng f) (snd (renderFile eng f (updateRocketHeader f w)))"
  from ok have step: "renderAndAddAll eng (f # fs) w = renderAndAddAll eng fs ?w1"
    by (simp add: renderFile_def Let_def)
  have "events ?w1 = events w @ firstPassEvents eng f"
    by (simp add: firstPassEvents_def)
  with Cons.IH [OF rest, of ?w1] show ?case
    unfolding step by simp
qed

lemma renderAll_ok:
  "\<forall>f \<in> set fs. \<forall>w'. \<not> renderRejects eng f w' \<Longrightarrow>
     fst (renderAll eng fs w) = Inr ()
     \<and> events (snd (renderAll eng fs w)) = events w @ map RenderFile fs"
proof (induction fs arbitrary: w)
  case Nil
  show ?case by simp
next
  case (Cons f fs)
  from Cons.prems have ok: "\<not> renderRejects eng f w"
    and rest: "\<forall>f \<in> set fs. \<forall>w'. \<not> renderRejects eng f w'"
    by simp_all
  from ok have step: "renderAll eng (f # fs) w = renderAll eng fs (snd (renderFile eng f w))"
    by (simp add: renderFile_def Let_def)
  from Cons.IH [OF rest, of "snd (renderFile eng f w)"] show ?case
    unfolding step by simp
qed

lemma renderAll_pageTree: "pageTree (snd (renderAll eng fs w)) = pageTree w"
proof (induction fs arbitrary: w)
  case Nil
  show ?case by simp
next
  case (Cons f fs)
  have "renderAll eng (f # fs) w
          = (if renderRejects eng f w then (Inl (RenderError f), snd (renderFile eng f w))
             else renderAll eng fs (snd (renderFile eng f w)))"
    by (simp add: renderFile_def Let_def)
  then show ?case
    by (simp add: Cons.IH)
qed

lemma count_firstPassEvents:
  "count_list (concat (map (firstPassEvents eng) fs)) (RenderFile f) = count_list fs f"
  "count_list (concat (map (firstPassEvents eng) fs)) PageTreeSave = 0"
  by (induction fs) (auto simp: firstPassEvents_def)

lemma count_map_RenderFile:
  "count_list (map RenderFile fs) (RenderFile f) = count_list fs f"
  "count_list (map RenderFile fs) PageTreeSave = 0"
  by (induction fs) auto

lemma firstPassEvents_adds:
  "f \<in> set fs \<Longrightarrow> PageTreeAdd (sourceRelative eng f) \<in> set (concat (map (firstPassEvents eng) fs))"
  by (induction fs) (auto simp: firstPassEvents_def)

lemma build_events:
  assumes nonempty: "sourceFiles \<noteq> []"
    and renders: "\<forall>f \<in> set sourceFiles. \<forall>w'. \<not> renderRejects eng f w'"
  shows "fst (build eng sourceFiles w) = Inr ()
       \<and> (\<exists>es. list_all isPrepareEvent es
             \<and> emitted w (snd (build eng sourceFiles w))
                 = es @ concat (map (firstPassEvents eng) sourceFiles) @ [PageTreeSave]
                     @ (if pageTreeChangedOnSave (pageTree (snd (build eng sourceFiles w)))
                        then map RenderFile sourceFiles else [])
                     @ [Stop])"
proof -
  let ?w0 = "(prepare eng True w)\<lparr>pageTree := newPageTree\<rparr>"
  obtain es where es: "events (prepare eng True w) = events w @ es" "list_all isPrepareEvent es"
    using prepare_events by blast
  obtain x1 where x1: "renderAndAddAll eng sourceFiles ?w0 = (Inr (), x1)"
    and e1: "events x1 = events ?w0 @ concat (map (firstPassEvents eng) sourceFiles)"
    using renderAndAddAll_ok [OF renders, of ?w0]
    by (cases "renderAndAddAll eng sourceFiles ?w0") auto
  let ?w2 = "pageTree_save eng x1"
  obtain x3 where x3: "renderAll eng sourceFiles ?w2 = (Inr (), x3)"
    and e3: "events x3 = events ?w2 @ map RenderFile sourceFiles"
    and p3: "pageTree x3 = pageTree ?w2"
    using renderAll_ok [OF renders, of ?w2] renderAll_pageTree [of eng sourceFiles ?w2]
    by (cases "renderAll eng sourceFiles ?w2") auto
  have b: "build eng sourceFiles w
             = (if pageTreeChangedOnSave (pageTree ?w2) then (Inr (), stop x3)
                else (Inr (), stop ?w2))"
    using nonempty by (simp add: build_def Let_def x1 x3)
  have flag: "pageTree (snd (build eng sourceFiles w)) = pageTree ?w2"
    by (simp add: b stop_def p3)
  have ev: "events (snd (build eng sourceFiles w))
          = events w @ (es @ concat (map (firstPassEvents eng) sourceFiles) @ [PageTreeSave]
                     @ (if pageTreeChangedOnSave (pageTree ?w2)
                        then map RenderFile sourceFiles else [])
                     @ [Stop])"
    by (simp add: b stop_def e1 e3 es)
  have "emitted w (snd (build eng sourceFiles w))
          = es @ concat (map (firstPassEvents eng) sourceFiles) @ [PageTreeSave]
                     @ (if pageTreeChangedOnSave (pageTree ?w2)
                        then map RenderFile sourceFiles else [])
                     @ [Stop]"
    using ev by (rule emitted_append)
  moreover have "fst (build eng sourceFiles w) = Inr ()"
    by (simp add: b)
  ultimately show ?thesis
    using es(2) flag by auto
qed

section \<open>Asset URLs of the dev server\<close>

text \<open>
  C7, as the code has it. A relative asset URL (one that starts with \<open>./\<close> or \<open>../\<close>) is
  always rewritten to \<open>/__wds-outside-root__/<count>/<rest>\<close>, where the path of the asset
  relative to the output root is \<open>count\<close> times \<open>../\<close> followed by \<open>rest\<close>, and \<open>rest\<close>
  does not start with \<open>../\<close>; so \<open>count\<close> is the number of leading \<open>../\<close> of that
  relative path, and it is 0 for an asset inside the output root. Any other URL is
  returned unchanged.
\<close>

theorem adjustAssetUrl_rewrites:
  "(startsWith url ''./'' \<or> startsWith url ''../'' \<longrightarrow>
      (\<exists>count rest.
          adjustAssetUrl eng url outputFilePath
            = ''/__wds-outside-root__/'' @ showNat count @ ''/'' @ rest
        \<and> relative (cwd eng) (outputDir eng) (join [dirname outputFilePath, url])
            = concat (replicate count ''../'') @ rest
        \<and> \<not> startsWith rest ''../''))
   \<and> (\<not> (startsWith url ''./'' \<or> startsWith url ''../'') \<longrightarrow>
        adjustAssetUrl eng url outputFilePath = url)"
proof (intro conjI impI)
  assume rel: "startsWith url ''./'' \<or> startsWith url ''../''"
  obtain count rest where
    sp: "stripParents (relative (cwd eng) (outputDir eng) (join [dirname outputFilePath, url])) 0
           = (count, rest)"
    by (cases "stripParents (relative (cwd eng) (outputDir eng) (join [dirname outputFilePath, url])) 0")
  from stripParents_spec [OF sp]
  have "relative (cwd eng) (outputDir eng) (join [dirname outputFilePath, url])
          = concat (replicate count ''../'') @ rest"
    and "\<not> startsWith rest ''../''"
    by auto
  moreover from rel sp
  have "adjustAssetUrl eng url outputFilePath
          = ''/__wds-outside-root__/'' @ showNat count @ ''/'' @ rest"
    by (simp add: adjustAssetUrl_def Let_def)
  ultimately show "\<exists>count rest.
          adjustAssetUrl eng url outputFilePath
            = ''/__wds-outside-root__/'' @ showNat count @ ''/'' @ rest
        \<and> relative (cwd eng) (outputDir eng) (join [dirname outputFilePath, url])
            = concat (replicate count ''../'') @ rest
        \<and> \<not> startsWith rest ''../''"
    by blast
next
  assume "\<not> (startsWith url ''./'' \<or> startsWith url ''../'')"
  then show "adjustAssetUrl eng url outputFilePath = url"
    by (simp add: adjustAssetUrl_def)
qed

text \<open>
  The rewriting at an asset two levels above the output root, and at an absolute URL.
\<close>

theorem adjustAssetUrl_rewrites_witness:
  "(\<exists>count rest.
       adjustAssetUrl demoEngine ''../../x/a.png'' ''/proj/_site-dev/index.html''
         = ''/__wds-outside-root__/'' @ showNat count @ ''/'' @ rest
     \<and> relative (cwd demoEngine) (outputDir demoEngine)
           (join [dirname ''/proj/_site-dev/index.html'', ''../../x/a.png''])
         = concat (replicate count ''../'') @ rest
     \<and> \<not> startsWith rest ''../'')
   \<and> adjustAssetUrl demoEngine ''/x/a.png'' ''/proj/_site-dev/index.html'' = ''/x/a.png''"
proof -
  have rel: "startsWith ''../../x/a.png'' ''./'' \<or> startsWith ''../../x/a.png'' ''../''"
    by (simp add: startsWith_def)
  have abs: "\<not> (startsWith ''/x/a.png'' ''./'' \<or> startsWith ''/x/a.png'' ''../'')"
    by (simp add: startsWith_def)
  from adjustAssetUrl_rewrites [of "''../../x/a.png''" demoEngine "''/proj/_site-dev/index.html''"]
       adjustAssetUrl_rewrites [of "''/x/a.png''" demoEngine "''/proj/_site-dev/index.html''"]
       rel abs
  show ?thesis by blast
qed

text \<open>
  C7 as stated fails: \<open>./a.png\<close> in \<open>/proj/_site-dev/index.html\<close> resolves to
  \<open>a.png\<close> inside the output root \<open>/proj/_site-dev\<close>, and is rewritten all the same,
  with counter 0.
\<close>

theorem adjustAssetUrl_inside_root_counterexample:
  "relative (cwd demoEngine) (outputDir demoEngine)
       (join [dirname ''/proj/_site-dev/index.html'', ''./a.png'']) = ''a.png''
   \<and> adjustAssetUrl demoEngine ''./a.png'' ''/proj/_site-dev/index.html''
       = ''/__wds-outside-root__/0/a.png''
   \<and> adjustAssetUrl demoEngine ''./a.png'' ''/proj/_site-dev/index.html'' \<noteq> ''./a.png''"
  by code_simp

section \<open>Public folders of plugins\<close>

text \<open>
  C8 at a plugin that declares no public folder: \<open>prepare\<close> creates the output
  directory, copies the folder of the plugin that has one, and logs for \<open>PlainPlugin\<close>
  that it "defined a public folder undefined".
\<close>

theorem prepare_logs_for_plugin_without_public_folder:
  "publicFolder \<lparr>constructorName = ''PlainPlugin'', publicFolder = None\<rparr> = None
   \<and> emitted demoWorld (prepare demoEngine True demoWorld)
       = [Mkdir ''/proj/_site-dev'',
          Copy ''/proj/launch/__public'' ''/proj/_site-dev'',
          ConsoleLog ''Plugin PlainPlugin defined a public folder undefined but it does not exist.'']"
  by code_simp

section \<open>Requests that need no render\<close>

text \<open>
  C10. When the URL of a request resolves to no source file, or to a source file whose
  output file exists, the serve hook leaves the world as it is: no event at all (so no
  render), the page tree and the files on disk unchanged.
\<close>

theorem serve_without_render:
  assumes "getSourceFilePathFromUrl eng contextPath = None
           \<or> (\<exists>sourceFilePath. getSourceFilePathFromUrl eng contextPath = Some sourceFilePath
                 \<and> files w (getOutputFilePath eng sourceFilePath))"
  shows "snd (serve eng contextPath w) = w"
  using assms by (auto simp: serve_def)

theorem serve_without_render_witness:
  "snd (serve demoEngine ''/b/'' demoWorld) = demoWorld
   \<and> snd (serve demoEngine ''/nowhere/'' demoWorld) = demoWorld"
proof -
  have none: "getSourceFilePathFromUrl demoEngine ''/nowhere/'' = None"
    by (simp add: getSourceFilePathFromUrl_def demoEngine_def)
  have some: "getSourceFilePathFromUrl demoEngine ''/b/'' = Some ''/proj/docs/b.md''"
    by (simp add: getSourceFilePathFromUrl_def demoEngine_def)
  have out: "files demoWorld (getOutputFilePath demoEngine ''/proj/docs/b.md'')"
    by code_simp
  from serve_without_render [of demoEngine "''/nowhere/''" demoWorld] none
  have "snd (serve demoEngine ''/nowhere/'' demoWorld) = demoWorld"
    by simp
  moreover from serve_without_render [of demoEngine "''/b/''" demoWorld] some out
  have "snd (serve demoEngine ''/b/'' demoWorld) = demoWorld"
    by simp
  ultimately show ?thesis by simp
qed



section \<open>The structural cascade\<close>

text \<open>
  C9. In \<open>renderAllOpenedFiles\<close> with \<open>deleteOtherFiles = true\<close>, a tracked page that is
  neither the trigger nor open in a tab has its output file removed and is not rendered;
  when no two tracked pages share an output file, that file does not exist after the
  sweep. Every tracked page other than the trigger is either rendered or has its output
  removed. The keys of the \<open>pages\<close> map are distinct, as the keys of a \<open>Map\<close> are.
\<close>

theorem cascade_deletes_unopened_pages:
  assumes keys: "distinct (map fst (trackedPages w))"
    and tracked: "(sourceFilePath, pg) \<in> set (trackedPages w)"
    and notTrigger: "sourceFilePath \<noteq> trigger"
    and closed: "\<not> isOpenedInBrowser pg"
  shows "Rm (getOutputFilePath eng sourceFilePath)
           \<in> set (emitted w (renderAllOpenedFiles eng True trigger w))
       \<and> RenderFile sourceFilePath \<notin> set (emitted w (renderAllOpenedFiles eng True trigger w))
       \<and> (inj_on (getOutputFilePath eng) (fst ` set (trackedPages w)) \<longrightarrow>
            \<not> files (renderAllOpenedFiles eng True trigger w) (getOutputFilePath eng sourceFilePath))
       \<and> (\<forall>entry \<in> set (trackedPages w). fst entry \<noteq> trigger \<longrightarrow>
            RenderFile (fst entry) \<in> set (emitted w (renderAllOpenedFiles eng True trigger w))
            \<or> Rm (getOutputFilePath eng (fst entry))
                 \<in> set (emitted w (renderAllOpenedFiles eng True trigger w)))"
proof -
  let ?ps = "trackedPages w"
  have em: "emitted w (renderAllOpenedFiles eng True trigger w) = sweepEvents eng True trigger ?ps"
    by (simp add: renderAllOpenedFiles_events)
  have own: "pageSweepEvents eng True trigger (sourceFilePath, pg) = [Rm (getOutputFilePath eng sourceFilePath)]"
    using notTrigger closed by (auto simp: pageSweepEvents_def)
  have rm: "Rm (getOutputFilePath eng sourceFilePath) \<in> set (sweepEvents eng True trigger ?ps)"
    unfolding sweepEvents_set using tracked own by force
  have noRender: "RenderFile sourceFilePath \<notin> set (sweepEvents eng True trigger ?ps)"
  proof
    assume "RenderFile sourceFilePath \<in> set (sweepEvents eng True trigger ?ps)"
    then obtain entry where e: "entry \<in> set ?ps"
      and r: "RenderFile sourceFilePath \<in> set (pageSweepEvents eng True trigger entry)"
      unfolding sweepEvents_set by blast
    from pageSweepEvents_render [OF r] have "fst entry = sourceFilePath" and op: "isOpenedInBrowser (snd entry)"
      by simp_all
    with e have "(sourceFilePath, snd entry) \<in> set ?ps"
      by (metis prod.collapse)
    with keys tracked have "snd entry = pg"
      by (metis eq_key_imp_eq_value)
    with op closed show False by simp
  qed
  have gone: "inj_on (getOutputFilePath eng) (fst ` set ?ps) \<longrightarrow>
            \<not> files (renderAllOpenedFiles eng True trigger w) (getOutputFilePath eng sourceFilePath)"
  proof
    assume inj: "inj_on (getOutputFilePath eng) (fst ` set ?ps)"
    from tracked obtain ps where ps: "watcherPages w = Some ps"
      by (cases "watcherPages w") (auto simp: trackedPages_def)
    then have "?ps = ps" by (simp add: trackedPages_def)
    with sweepPages_files_deleted [OF keys inj tracked notTrigger closed, of w] ps
    show "\<not> files (renderAllOpenedFiles eng True trigger w) (getOutputFilePath eng sourceFilePath)"
      by (simp add: renderAllOpenedFiles_def)
  qed
  have every: "\<forall>entry \<in> set ?ps. fst entry \<noteq> trigger \<longrightarrow>
            RenderFile (fst entry) \<in> set (sweepEvents eng True trigger ?ps)
            \<or> Rm (getOutputFilePath eng (fst entry)) \<in> set (sweepEvents eng True trigger ?ps)"
  proof (intro ballI impI)
    fix entry assume e: "entry \<in> set ?ps" and nt: "fst entry \<noteq> trigger"
    then have "RenderFile (fst entry) \<in> set (pageSweepEvents eng True trigger entry)
             \<or> Rm (getOutputFilePath eng (fst entry)) \<in> set (pageSweepEvents eng True trigger entry)"
      by (auto simp: pageSweepEvents_def)
    with e show "RenderFile (fst entry) \<in> set (sweepEvents eng True trigger ?ps)
            \<or> Rm (getOutputFilePath eng (fst entry)) \<in> set (sweepEvents eng True trigger ?ps)"
      unfolding sweepEvents_set by blast
  qed
  from rm noRender gone every show ?thesis
    unfolding em by blast
qed


text \<open>The sweep triggered by \<open>a.md\<close> in the example project removes the output of \<open>c.md\<close>.\<close>

theorem cascade_deletes_unopened_pages_witness:
  "Rm ''/proj/_site-dev/c.md.html''
     \<in> set (emitted demoWorld (renderAllOpenedFiles demoEngine True ''/proj/docs/a.md'' demoWorld))
   \<and> RenderFile ''/proj/docs/c.md''
     \<notin> set (emitted demoWorld (renderAllOpenedFiles demoEngine True ''/proj/docs/a.md'' demoWorld))
   \<and> \<not> files (renderAllOpenedFiles demoEngine True ''/proj/docs/a.md'' demoWorld)
         ''/proj/_site-dev/c.md.html''"
proof -
  have keys: "distinct (map fst (trackedPages demoWorld))"
    by code_simp
  have tracked: "(''/proj/docs/c.md'', \<lparr>webSockets = Some []\<rparr>) \<in> set (trackedPages demoWorld)"
    by (simp add: trackedPages_def demoWorld_def)
  have notTrigger: "''/proj/docs/c.md'' \<noteq> ''/proj/docs/a.md''"
    by simp
  have closed: "\<not> isOpenedInBrowser \<lparr>webSockets = Some []\<rparr>"
    by (simp add: isOpenedInBrowser_def)
  have outs:
    "getOutputFilePath demoEngine ''/proj/docs/a.md'' = ''/proj/_site-dev/a.md.html''"
    "getOutputFilePath demoEngine ''/proj/docs/b.md'' = ''/proj/_site-dev/b.md.html''"
    "getOutputFilePath demoEngine ''/proj/docs/c.md'' = ''/proj/_site-dev/c.md.html''"
    "getOutputFilePath demoEngine ''/proj/docs/broken.md'' = ''/proj/_site-dev/broken.md.html''"
    "getOutputFilePath demoEngine ''/proj/docs/d.md'' = ''/proj/_site-dev/d.md.html''"
    by code_simp+
  have inj: "inj_on (getOutputFilePath demoEngine) (fst ` set (trackedPages demoWorld))"
    by (simp add: trackedPages_def demoWorld_def outs)
  from cascade_deletes_unopened_pages [OF keys tracked notTrigger closed, of demoEngine] inj
  show ?thesis
    by (simp add: outs)
qed

section \<open>A dependency of a page changed\<close>

text \<open>
  C5. \<open>onPageServerDependencySaved\<close> updates the header of the source file and removes
  the page's output file, and nothing else: no render, the page tree untouched, every
  other file as it was. A later request whose URL resolves to the page finds the output
  missing and renders the page first thing.
\<close>

theorem dependency_saved_only_invalidates:
  "emitted w (onPageServerDependencySaved eng f w)
       = [UpdateRocketHeader f, Rm (getOutputFilePath eng f)]
   \<and> pageTree (onPageServerDependencySaved eng f w) = pageTree w
   \<and> \<not> files (onPageServerDependencySaved eng f w) (getOutputFilePath eng f)
   \<and> (\<forall>p. p \<noteq> getOutputFilePath eng f \<longrightarrow>
          files (onPageServerDependencySaved eng f w) p = files w p)
   \<and> (\<forall>contextPath.
          contextPath \<noteq> ''/ws-register-tab.js''
          \<and> getSourceFilePathFromUrl eng contextPath = Some f \<and> f \<noteq> [] \<longrightarrow>
          (\<exists>rest. emitted (onPageServerDependencySaved eng f w)
                     (snd (serve eng contextPath (onPageServerDependencySaved eng f w)))
                   = UpdateRocketHeader f
                       # LogRendering (requestedMessage (sourceRelative eng f))
                       # RenderFile f # rest))"
proof (intro conjI allI impI)
  show "emitted w (onPageServerDependencySaved eng f w)
          = [UpdateRocketHeader f, Rm (getOutputFilePath eng f)]"
    by (simp add: onPageServerDependencySaved_def)
  show "pageTree (onPageServerDependencySaved eng f w) = pageTree w"
    by (simp add: onPageServerDependencySaved_def)
  show gone: "\<not> files (onPageServerDependencySaved eng f w) (getOutputFilePath eng f)"
    by (simp add: onPageServerDependencySaved_def)
  show "files (onPageServerDependencySaved eng f w) p = files w p"
    if "p \<noteq> getOutputFilePath eng f" for p
    using that by (simp add: onPageServerDependencySaved_def)
  show "\<exists>rest. emitted (onPageServerDependencySaved eng f w)
                     (snd (serve eng contextPath (onPageServerDependencySaved eng f w)))
                   = UpdateRocketHeader f
                       # LogRendering (requestedMessage (sourceRelative eng f))
                       # RenderFile f # rest"
    if req: "contextPath \<noteq> ''/ws-register-tab.js''
          \<and> getSourceFilePathFromUrl eng contextPath = Some f \<and> f \<noteq> []" for contextPath
  proof -
    let ?w = "onPageServerDependencySaved eng f w"
    let ?w1 = "logRendering (requestedMessage (sourceRelative eng f)) (updateRocketHeader f ?w)"
    from req gone have "snd (serve eng contextPath ?w)
           = snd (renderAndCascade eng f (sourceRelative eng f) ?w1)"
      by (simp add: serve_world)
    moreover obtain rest where
      "events (snd (renderAndCascade eng f (sourceRelative eng f) ?w1))
         = events ?w1 @ RenderFile f # rest"
      using renderAndCascade_first_event by blast
    ultimately have "events (snd (serve eng contextPath ?w))
       = events ?w @ (UpdateRocketHeader f
                       # LogRendering (requestedMessage (sourceRelative eng f))
                       # RenderFile f # rest)"
      by simp
    then show ?thesis
      by (metis emitted_append)
  qed
qed

theorem dependency_saved_only_invalidates_witness:
  "emitted demoWorld (onPageServerDependencySaved demoEngine ''/proj/docs/b.md'' demoWorld)
       = [UpdateRocketHeader ''/proj/docs/b.md'', Rm ''/proj/_site-dev/b.md.html'']
   \<and> files demoWorld ''/proj/_site-dev/b.md.html''
   \<and> \<not> files (onPageServerDependencySaved demoEngine ''/proj/docs/b.md'' demoWorld)
         ''/proj/_site-dev/b.md.html''
   \<and> (\<exists>rest. emitted (onPageServerDependencySaved demoEngine ''/proj/docs/b.md'' demoWorld)
                 (snd (serve demoEngine ''/b/''
                         (onPageServerDependencySaved demoEngine ''/proj/docs/b.md'' demoWorld)))
               = UpdateRocketHeader ''/proj/docs/b.md''
                   # LogRendering (requestedMessage (sourceRelative demoEngine ''/proj/docs/b.md''))
                   # RenderFile ''/proj/docs/b.md'' # rest)"
proof -
  have out: "getOutputFilePath demoEngine ''/proj/docs/b.md'' = ''/proj/_site-dev/b.md.html''"
    by code_simp
  have before: "files demoWorld ''/proj/_site-dev/b.md.html''"
    by (simp add: demoWorld_def)
  have req: "''/b/'' \<noteq> ''/ws-register-tab.js''
             \<and> getSourceFilePathFromUrl demoEngine ''/b/'' = Some ''/proj/docs/b.md''
             \<and> ''/proj/docs/b.md'' \<noteq> []"
    by (simp add: getSourceFilePathFromUrl_def demoEngine_def)
  note inst = dependency_saved_only_invalidates [of demoWorld demoEngine "''/proj/docs/b.md''"]
  note events = inst [THEN conjunct1]
  note gone = inst [THEN conjunct2, THEN conjunct2, THEN conjunct1]
  note later = inst [THEN conjunct2, THEN conjunct2, THEN conjunct2, THEN conjunct2,
                     THEN spec, THEN mp, OF req]
  from events gone have "emitted demoWorld (onPageServerDependencySaved demoEngine ''/proj/docs/b.md'' demoWorld)
       = [UpdateRocketHeader ''/proj/docs/b.md'', Rm ''/proj/_site-dev/b.md.html'']
     \<and> \<not> files (onPageServerDependencySaved demoEngine ''/proj/docs/b.md'' demoWorld)
         ''/proj/_site-dev/b.md.html''"
    by (simp only: out simp_thms)
  with before later show ?thesis
    by (intro conjI) (erule conjunct1, assumption, erule conjunct2, assumption)
qed

section \<open>A page was deleted\<close>

text \<open>
  C4. When the source file of a page (a path in normal form under the docs directory) is
  gone from disk, \<open>onPageDeleted\<close> removes the page's output file and does nothing else,
  and the next save of the page tree drops the page's node; the output file is still
  absent then.
\<close>

theorem page_deleted_removes_output_and_node:
  assumes "\<not> files w sourceFilePath"
    and "join [docsDir eng, sourceRelative eng sourceFilePath] = sourceFilePath"
  shows "emitted w (onPageDeleted eng sourceFilePath w) = [Rm (getOutputFilePath eng sourceFilePath)]
       \<and> \<not> files (onPageDeleted eng sourceFilePath w) (getOutputFilePath eng sourceFilePath)
       \<and> pageTree (onPageDeleted eng sourceFilePath w) = pageTree w
       \<and> sourceRelative eng sourceFilePath
           \<notin> set (nodes (pageTree (pageTree_save eng (onPageDeleted eng sourceFilePath w))))
       \<and> \<not> files (pageTree_save eng (onPageDeleted eng sourceFilePath w))
             (getOutputFilePath eng sourceFilePath)"
  using assms
  by (auto simp: onPageDeleted_def pageTree_save_nodes)


theorem page_deleted_removes_output_and_node_witness:
  "files demoWorldWithoutA ''/proj/_site-dev/a.md.html''
   \<and> ''a.md'' \<in> set (nodes (pageTree demoWorldWithoutA))
   \<and> emitted demoWorldWithoutA (onPageDeleted demoEngine ''/proj/docs/a.md'' demoWorldWithoutA)
       = [Rm ''/proj/_site-dev/a.md.html'']
   \<and> \<not> files (onPageDeleted demoEngine ''/proj/docs/a.md'' demoWorldWithoutA)
         ''/proj/_site-dev/a.md.html''
   \<and> ''a.md'' \<notin> set (nodes (pageTree (pageTree_save demoEngine
                       (onPageDeleted demoEngine ''/proj/docs/a.md'' demoWorldWithoutA))))"
proof -
  have gone: "\<not> files demoWorldWithoutA ''/proj/docs/a.md''"
    by (simp add: demoWorldWithoutA_def)
  have normal: "join [docsDir demoEngine, sourceRelative demoEngine ''/proj/docs/a.md'']
                  = ''/proj/docs/a.md''"
    by code_simp
  have out: "getOutputFilePath demoEngine ''/proj/docs/a.md'' = ''/proj/_site-dev/a.md.html''"
    by code_simp
  have rel: "sourceRelative demoEngine ''/proj/docs/a.md'' = ''a.md''"
    by code_simp
  have before: "files demoWorldWithoutA ''/proj/_site-dev/a.md.html''
                \<and> ''a.md'' \<in> set (nodes (pageTree demoWorldWithoutA))"
    by (simp add: demoWorldWithoutA_def)
  from page_deleted_removes_output_and_node [OF gone normal] out rel before
  show ?thesis
    by simp
qed


section \<open>Rendering on demand\<close>




section \<open>A page was saved\<close>

text \<open>
  C2, as the code has it. For a watch event on a page whose renders do not reject and
  whose save leaves \<open>needsAnotherRenderingPass\<close> set, the handler does, in this order:
  update the header, render the page, add it to the tree, save the tree, render the page
  once more, sweep the tracked pages. So every tracked page other than it that is open in
  a tab is rendered exactly once, the page itself is rendered twice in all (once before
  the save, once more after it) and never in the sweep, and the flag is reset.
\<close>

theorem watch_event_cascade:
  assumes nonempty: "sourceFilePath \<noteq> []"
    and keys: "distinct (map fst (trackedPages w))"
    and renders: "\<forall>w'. \<not> renderRejects eng sourceFilePath w'"
    and structural:
      "needsAnotherRenderingPass
         (pageTree (snd (renderAddSave eng sourceFilePath (sourceRelative eng sourceFilePath)
                           (updateRocketHeader sourceFilePath w))))"
  shows "emitted w (snd (onPageSavedOrOpenedTabAndServerDependencyChanged eng sourceFilePath w))
           = [UpdateRocketHeader sourceFilePath, RenderFile sourceFilePath,
              PageTreeAdd (sourceRelative eng sourceFilePath), PageTreeSave,
              LogRendering (againMessage (sourceRelative eng sourceFilePath)),
              RenderFile sourceFilePath]
             @ sweepEvents eng True sourceFilePath (trackedPages w)
       \<and> (\<forall>entry \<in> set (trackedPages w).
            fst entry \<noteq> sourceFilePath \<and> isOpenedInBrowser (snd entry) \<longrightarrow>
            count_list (emitted w (snd (onPageSavedOrOpenedTabAndServerDependencyChanged eng sourceFilePath w)))
              (RenderFile (fst entry)) = 1)
       \<and> count_list (emitted w (snd (onPageSavedOrOpenedTabAndServerDependencyChanged eng sourceFilePath w)))
           (RenderFile sourceFilePath) = 2
       \<and> count_list (sweepEvents eng True sourceFilePath (trackedPages w))
           (RenderFile sourceFilePath) = 0
       \<and> \<not> needsAnotherRenderingPass
             (pageTree (snd (onPageSavedOrOpenedTabAndServerDependencyChanged eng sourceFilePath w)))"
proof -
  let ?r = "sourceRelative eng sourceFilePath"
  let ?w0 = "updateRocketHeader sourceFilePath w"
  let ?saved = "snd (renderAddSave eng sourceFilePath ?r ?w0)"
  let ?w' = "snd (onPageSavedOrOpenedTabAndServerDependencyChanged eng sourceFilePath w)"
  let ?sweep = "sweepEvents eng True sourceFilePath (trackedPages w)"
  have tp: "trackedPages ?w0 = trackedPages w"
    by (rule trackedPages_cong) simp
  from renders have "events ?saved
      = events ?w0 @ [RenderFile sourceFilePath, PageTreeAdd ?r, PageTreeSave]"
    by (simp add: renderAddSave_ok)
  with cascade_after_save(2) [OF renders structural]
  have "events ?w' = events w @
          ([UpdateRocketHeader sourceFilePath, RenderFile sourceFilePath, PageTreeAdd ?r,
            PageTreeSave, LogRendering (againMessage ?r), RenderFile sourceFilePath] @ ?sweep)"
    by (simp add: handler_world tp)
  then have em: "emitted w ?w' =
          [UpdateRocketHeader sourceFilePath, RenderFile sourceFilePath, PageTreeAdd ?r,
            PageTreeSave, LogRendering (againMessage ?r), RenderFile sourceFilePath] @ ?sweep"
    by (rule emitted_append)
  have never: "count_list ?sweep (RenderFile sourceFilePath) = 0"
    using nonempty by (rule sweepEvents_trigger_never)
  have twice: "count_list (emitted w ?w') (RenderFile sourceFilePath) = 2"
    unfolding em count_list_append using never by simp
  have others: "\<forall>entry \<in> set (trackedPages w).
            fst entry \<noteq> sourceFilePath \<and> isOpenedInBrowser (snd entry) \<longrightarrow>
            count_list (emitted w ?w') (RenderFile (fst entry)) = 1"
  proof (intro ballI impI)
    fix entry
    assume mem: "entry \<in> set (trackedPages w)"
      and e: "fst entry \<noteq> sourceFilePath \<and> isOpenedInBrowser (snd entry)"
    from sweepEvents_render_once [OF keys mem, of sourceFilePath eng True] e
    have "count_list ?sweep (RenderFile (fst entry)) = 1"
      by simp
    with e show "count_list (emitted w ?w') (RenderFile (fst entry)) = 1"
      unfolding em count_list_append by auto
  qed
  have reset: "\<not> needsAnotherRenderingPass (pageTree ?w')"
    using cascade_after_save(3) [OF renders structural] by (simp add: handler_world)
  from em others twice never reset show ?thesis
    by (intro conjI)
qed

theorem watch_event_cascade_witness:
  "emitted demoWorld
       (snd (onPageSavedOrOpenedTabAndServerDependencyChanged demoEngine ''/proj/docs/a.md'' demoWorld))
     = [UpdateRocketHeader ''/proj/docs/a.md'', RenderFile ''/proj/docs/a.md'',
        PageTreeAdd (sourceRelative demoEngine ''/proj/docs/a.md''), PageTreeSave,
        LogRendering (againMessage (sourceRelative demoEngine ''/proj/docs/a.md'')),
        RenderFile ''/proj/docs/a.md'']
       @ sweepEvents demoEngine True ''/proj/docs/a.md'' (trackedPages demoWorld)
   \<and> count_list (emitted demoWorld
       (snd (onPageSavedOrOpenedTabAndServerDependencyChanged demoEngine ''/proj/docs/a.md'' demoWorld)))
     (RenderFile ''/proj/docs/b.md'') = 1
   \<and> count_list (emitted demoWorld
       (snd (onPageSavedOrOpenedTabAndServerDependencyChanged demoEngine ''/proj/docs/a.md'' demoWorld)))
     (RenderFile ''/proj/docs/a.md'') = 2
   \<and> \<not> needsAnotherRenderingPass (pageTree
       (snd (onPageSavedOrOpenedTabAndServerDependencyChanged demoEngine ''/proj/docs/a.md'' demoWorld)))"
proof -
  have nonempty: "''/proj/docs/a.md'' \<noteq> []"
    by simp
  have keys: "distinct (map fst (trackedPages demoWorld))"
    by code_simp
  have renders: "\<forall>w'. \<not> renderRejects demoEngine ''/proj/docs/a.md'' w'"
    by (simp add: demoEngine_def)
  have structural: "needsAnotherRenderingPass
         (pageTree (snd (renderAddSave demoEngine ''/proj/docs/a.md''
                           (sourceRelative demoEngine ''/proj/docs/a.md'')
                           (updateRocketHeader ''/proj/docs/a.md'' demoWorld))))"
    by code_simp
  have tracked: "(''/proj/docs/b.md'', \<lparr>webSockets = Some [2, 3]\<rparr>) \<in> set (trackedPages demoWorld)"
    by (simp add: trackedPages_def demoWorld_def)
  have opened: "fst (''/proj/docs/b.md'', \<lparr>webSockets = Some [2, 3]\<rparr>) \<noteq> ''/proj/docs/a.md''
                \<and> isOpenedInBrowser (snd (''/proj/docs/b.md'', \<lparr>webSockets = Some [2, 3]\<rparr>))"
    by (simp add: isOpenedInBrowser_def)
  note inst = watch_event_cascade [OF nonempty keys renders structural]
  note order = inst [THEN conjunct1]
  note others = inst [THEN conjunct2, THEN conjunct1, THEN bspec, OF tracked, THEN mp, OF opened]
  note twice = inst [THEN conjunct2, THEN conjunct2, THEN conjunct1]
  note reset = inst [THEN conjunct2, THEN conjunct2, THEN conjunct2, THEN conjunct2]
  from others have once: "count_list (emitted demoWorld
       (snd (onPageSavedOrOpenedTabAndServerDependencyChanged demoEngine ''/proj/docs/a.md'' demoWorld)))
     (RenderFile ''/proj/docs/b.md'') = 1"
    by (simp only: fst_conv)
  from order once twice reset show ?thesis
    by (intro conjI)
qed

text \<open>
  C2 as stated fails when the second render of the page rejects: with a worker that
  rejects once the tree was saved, the event on \<open>a.md\<close> raises the flag, the render
  after it rejects, and the sweep never runs: \<open>b.md\<close>, tracked and open in two tabs, is
  not rendered.
\<close>

theorem watch_event_cascade_rejected_render_counterexample: "needsAnotherRenderingPass
         (pageTree (snd (renderAddSave flakyEngine ''/proj/docs/a.md''
                           (sourceRelative flakyEngine ''/proj/docs/a.md'')
                           (updateRocketHeader ''/proj/docs/a.md'' demoWorld))))
   \<and> (''/proj/docs/b.md'', \<lparr>webSockets = Some [2, 3]\<rparr>) \<in> set (trackedPages demoWorld)
   \<and> isOpenedInBrowser \<lparr>webSockets = Some [2, 3]\<rparr>
   \<and> emitted demoWorld (snd (onPageSavedOrOpenedTabAndServerDependencyChanged flakyEngine
                               ''/proj/docs/a.md'' demoWorld))
       = [UpdateRocketHeader ''/proj/docs/a.md'', RenderFile ''/proj/docs/a.md'',
          PageTreeAdd ''a.md'', PageTreeSave,
          LogRendering ''a.md again as the pageTree was modified.'',
          RenderFile ''/proj/docs/a.md'']"
  by code_simp

section \<open>Rejected renders\<close>

text \<open>
  C3, as the code has it. Whatever renders reject: the watch handler and the serve hook
  return normally; the sweep renders every open tracked page it does not skip, also those
  after a page whose render rejected; and the watch handler run on the world a first event
  left renders the page of the second event.
\<close>

theorem render_errors_are_contained:
  "fst (onPageSavedOrOpenedTabAndServerDependencyChanged eng f w) = Inr ()
   \<and> (\<exists>v. fst (serve eng contextPath w) = Inr v)
   \<and> (\<forall>entry \<in> set (trackedPages w).
         \<not> (trigger \<noteq> [] \<and> trigger = fst entry) \<and> isOpenedInBrowser (snd entry) \<longrightarrow>
         RenderFile (fst entry)
           \<in> set (emitted w (renderAllOpenedFiles eng deleteOtherFiles trigger w)))
   \<and> RenderFile g
       \<in> set (emitted (snd (onPageSavedOrOpenedTabAndServerDependencyChanged eng f w))
                (snd (onPageSavedOrOpenedTabAndServerDependencyChanged eng g
                        (snd (onPageSavedOrOpenedTabAndServerDependencyChanged eng f w)))))"
proof (intro conjI ballI impI)
  show "fst (onPageSavedOrOpenedTabAndServerDependencyChanged eng f w) = Inr ()"
    by (simp add: onPageSavedOrOpenedTabAndServerDependencyChanged_def)
  show "\<exists>v. fst (serve eng contextPath w) = Inr v"
    by (rule serve_result)
  show "RenderFile (fst entry)
           \<in> set (emitted w (renderAllOpenedFiles eng deleteOtherFiles trigger w))"
    if "entry \<in> set (trackedPages w)"
      and "\<not> (trigger \<noteq> [] \<and> trigger = fst entry) \<and> isOpenedInBrowser (snd entry)" for entry
    using that sweepEvents_renders_open [of entry "trackedPages w" trigger eng deleteOtherFiles]
    by (simp add: renderAllOpenedFiles_events)
  let ?w1 = "snd (onPageSavedOrOpenedTabAndServerDependencyChanged eng f w)"
  obtain rest where
    "events (snd (onPageSavedOrOpenedTabAndServerDependencyChanged eng g ?w1))
       = events ?w1 @ UpdateRocketHeader g # RenderFile g # rest"
    using handler_first_events by blast
  then have "emitted ?w1 (snd (onPageSavedOrOpenedTabAndServerDependencyChanged eng g ?w1))
       = UpdateRocketHeader g # RenderFile g # rest"
    by (rule emitted_append)
  then show "RenderFile g \<in> set (emitted ?w1 (snd (onPageSavedOrOpenedTabAndServerDependencyChanged eng g ?w1)))"
    by simp
qed

theorem render_errors_are_contained_witness:
  "renderRejects demoEngine ''/proj/docs/broken.md'' demoWorld
   \<and> fst (onPageSavedOrOpenedTabAndServerDependencyChanged demoEngine ''/proj/docs/broken.md'' demoWorld)
       = Inr ()
   \<and> (\<exists>v. fst (serve demoEngine ''/broken/'' demoWorld) = Inr v)
   \<and> RenderFile ''/proj/docs/b.md''
       \<in> set (emitted demoWorld (renderAllOpenedFiles demoEngine True ''/proj/docs/a.md'' demoWorld))
   \<and> RenderFile ''/proj/docs/a.md''
       \<in> set (emitted
            (snd (onPageSavedOrOpenedTabAndServerDependencyChanged demoEngine ''/proj/docs/broken.md'' demoWorld))
            (snd (onPageSavedOrOpenedTabAndServerDependencyChanged demoEngine ''/proj/docs/a.md''
                    (snd (onPageSavedOrOpenedTabAndServerDependencyChanged demoEngine
                            ''/proj/docs/broken.md'' demoWorld)))))"
proof -
  have rejects: "renderRejects demoEngine ''/proj/docs/broken.md'' demoWorld"
    by (simp add: demoEngine_def)
  have tracked: "(''/proj/docs/b.md'', \<lparr>webSockets = Some [2, 3]\<rparr>) \<in> set (trackedPages demoWorld)"
    by (simp add: trackedPages_def demoWorld_def)
  have opened: "\<not> (''/proj/docs/a.md'' \<noteq> []
                   \<and> ''/proj/docs/a.md'' = fst (''/proj/docs/b.md'', \<lparr>webSockets = Some [2, 3]\<rparr>))
                \<and> isOpenedInBrowser (snd (''/proj/docs/b.md'', \<lparr>webSockets = Some [2, 3]\<rparr>))"
    by (simp add: isOpenedInBrowser_def)
  note inst = render_errors_are_contained
    [where eng = demoEngine and f = "''/proj/docs/broken.md''" and w = demoWorld
       and contextPath = "''/broken/''" and trigger = "''/proj/docs/a.md''"
       and deleteOtherFiles = True and g = "''/proj/docs/a.md''"]
  note handler = inst [THEN conjunct1]
  note hook = inst [THEN conjunct2, THEN conjunct1]
  note batch = inst [THEN conjunct2, THEN conjunct2, THEN conjunct1,
                     THEN bspec, OF tracked, THEN mp, OF opened]
  note alive = inst [THEN conjunct2, THEN conjunct2, THEN conjunct2]
  from batch have "RenderFile ''/proj/docs/b.md''
       \<in> set (emitted demoWorld (renderAllOpenedFiles demoEngine True ''/proj/docs/a.md'' demoWorld))"
    by (simp only: fst_conv)
  with rejects handler hook alive show ?thesis
    by (intro conjI)
qed

text \<open>
  C3 as stated fails for the build loop, which has no \<open>try\<close>: the rejected render of
  \<open>broken.md\<close> ends the build with that error and \<open>a.md\<close>, next in the batch, is never
  rendered.
\<close>

theorem build_propagates_render_error_counterexample: "fst (build demoEngine [''/proj/docs/broken.md'', ''/proj/docs/a.md''] demoWorld)
       = Inl (RenderError ''/proj/docs/broken.md'')
   \<and> RenderFile ''/proj/docs/a.md''
       \<notin> set (events (snd (build demoEngine [''/proj/docs/broken.md'', ''/proj/docs/a.md''] demoWorld)))"
  by code_simp

section \<open>A full build\<close>

text \<open>
  C6, as the code has it. A build over at least one gathered source file in which no
  render rejects returns normally; the tree is saved exactly once; every gathered file is
  added to the tree; and a file is rendered once for each time it was gathered, and once
  more for each when the save reported \<open>pageTreeChangedOnSave\<close>: at most twice for a file
  gathered once.
\<close>

theorem build_renders_at_most_twice:
  assumes nonempty: "sourceFiles \<noteq> []"
    and renders: "\<forall>f \<in> set sourceFiles. \<forall>w'. \<not> renderRejects eng f w'"
  shows "fst (build eng sourceFiles w) = Inr ()
       \<and> count_list (emitted w (snd (build eng sourceFiles w))) PageTreeSave = 1
       \<and> (\<forall>f \<in> set sourceFiles.
             PageTreeAdd (sourceRelative eng f) \<in> set (emitted w (snd (build eng sourceFiles w))))
       \<and> (\<forall>f. count_list (emitted w (snd (build eng sourceFiles w))) (RenderFile f)
               = count_list sourceFiles f
                 * (if pageTreeChangedOnSave (pageTree (snd (build eng sourceFiles w)))
                    then 2 else 1))"
proof -
  let ?w' = "snd (build eng sourceFiles w)"
  from build_events [OF nonempty renders, of w] obtain es where
    ok: "fst (build eng sourceFiles w) = Inr ()"
    and es: "list_all isPrepareEvent es"
    and em: "emitted w ?w'
               = es @ concat (map (firstPassEvents eng) sourceFiles) @ [PageTreeSave]
                   @ (if pageTreeChangedOnSave (pageTree ?w') then map RenderFile sourceFiles else [])
                   @ [Stop]"
    by blast
  note zero = count_prepare_events [OF es]
  have saves: "count_list (emitted w ?w') PageTreeSave = 1"
    unfolding em using zero by (simp add: count_firstPassEvents count_map_RenderFile)
  have adds: "\<forall>f \<in> set sourceFiles. PageTreeAdd (sourceRelative eng f) \<in> set (emitted w ?w')"
  proof
    fix f assume "f \<in> set sourceFiles"
    then have "PageTreeAdd (sourceRelative eng f) \<in> set (concat (map (firstPassEvents eng) sourceFiles))"
      by (rule firstPassEvents_adds)
    then show "PageTreeAdd (sourceRelative eng f) \<in> set (emitted w ?w')"
      unfolding em by simp
  qed
  have renders': "\<forall>f. count_list (emitted w ?w') (RenderFile f)
               = count_list sourceFiles f
                 * (if pageTreeChangedOnSave (pageTree ?w') then 2 else 1)"
    unfolding em using zero by (simp add: count_firstPassEvents count_map_RenderFile)
  from ok saves adds renders' show ?thesis
    by blast
qed

theorem build_renders_at_most_twice_witness:
  "fst (build demoEngine [''/proj/docs/a.md'', ''/proj/docs/b.md''] demoWorld) = Inr ()
   \<and> count_list (emitted demoWorld
         (snd (build demoEngine [''/proj/docs/a.md'', ''/proj/docs/b.md''] demoWorld))) PageTreeSave = 1
   \<and> PageTreeAdd (sourceRelative demoEngine ''/proj/docs/a.md'')
       \<in> set (emitted demoWorld
            (snd (build demoEngine [''/proj/docs/a.md'', ''/proj/docs/b.md''] demoWorld)))
   \<and> count_list (emitted demoWorld
         (snd (build demoEngine [''/proj/docs/a.md'', ''/proj/docs/b.md''] demoWorld)))
       (RenderFile ''/proj/docs/a.md'') = 2"
proof -
  have nonempty: "[''/proj/docs/a.md'', ''/proj/docs/b.md''] \<noteq> []"
    by simp
  have renders: "\<forall>f \<in> set [''/proj/docs/a.md'', ''/proj/docs/b.md''].
                   \<forall>w'. \<not> renderRejects demoEngine f w'"
    by (simp add: demoEngine_def)
  have changed: "pageTreeChangedOnSave (pageTree
       (snd (build demoEngine [''/proj/docs/a.md'', ''/proj/docs/b.md''] demoWorld)))"
    by code_simp
  have gathered: "''/proj/docs/a.md'' \<in> set [''/proj/docs/a.md'', ''/proj/docs/b.md'']"
    by simp
  have once: "count_list [''/proj/docs/a.md'', ''/proj/docs/b.md''] ''/proj/docs/a.md'' = 1"
    by simp
  note inst = build_renders_at_most_twice [OF nonempty renders, of demoWorld]
  note ok = inst [THEN conjunct1]
  note saves = inst [THEN conjunct2, THEN conjunct1]
  note adds = inst [THEN conjunct2, THEN conjunct2, THEN conjunct1, THEN bspec, OF gathered]
  note counts = inst [THEN conjunct2, THEN conjunct2, THEN conjunct2, THEN spec,
                      of "''/proj/docs/a.md''"]
  from counts have "count_list (emitted demoWorld
         (snd (build demoEngine [''/proj/docs/a.md'', ''/proj/docs/b.md''] demoWorld)))
       (RenderFile ''/proj/docs/a.md'') = 2"
    by (simp only: once changed if_True mult_1)
  with ok saves adds show ?thesis
    by (intro conjI)
qed

text \<open>
  C6 as stated fails for a build that gathered no source file: the guard on
  \<open>sourceFiles.length\<close> skips the save, so the tree is saved zero times, not once.
\<close>

theorem build_without_files_counterexample:
  "fst (build demoEngine [] demoWorld) = Inr ()
   \<and> count_list (emitted demoWorld (snd (build demoEngine [] demoWorld))) PageTreeSave = 0"
  by code_simp

end
